theory Spec2Isabelle
  imports Complex_Main "HOL-Library.Word" "HOL-Library.Sublist" "HOL-Library.AList"
begin

section \<open>Data model (pkg/types/types.go)\<close>

text \<open>
  Go strings are modelled as \<open>string\<close>, byte slices as lists of 8-bit words,
  \<open>time.Time\<close> as an integer count of time units (\<open>After\<close> is greater-than, \<open>Before\<close> is
  less-than), \<open>int\<close>/\<open>int64\<close> as \<open>int\<close> (no property below depends on overflow), and
  \<open>float64\<close> quotients as quotients of reals.
\<close>

type_synonym bytes = "8 word list"
type_synonym timestamp = int

text \<open>\<open>type JobStatus string\<close> with its constants.\<close>

type_synonym JobStatus = string

definition JobStatusPending :: JobStatus where "JobStatusPending = ''pending''"
definition JobStatusRunning :: JobStatus where "JobStatusRunning = ''running''"
definition JobStatusCompleted :: JobStatus where "JobStatusCompleted = ''completed''"
definition JobStatusFailed :: JobStatus where "JobStatusFailed = ''failed''"
definition JobStatusCancelled :: JobStatus where "JobStatusCancelled = ''cancelled''"
definition JobStatusDeleted :: JobStatus where "JobStatusDeleted = ''deleted''"

text \<open>
  Errors as values. \<open>Wrap msg e\<close> is \<open>fmt.Errorf("msg: %w", e)\<close>; the messages are
  English tags for the source's phase descriptions.
\<close>

datatype error =
    DbError
  | NotFound string
  | StorageFailure
  | NotExist
  | NotEmpty
  | IOError
  | UnsafePath string
  | AuthError
  | Cancelled
  | Wrap string error

record BackupPolicy =
  pol_ID :: string
  pol_Name :: string
  pol_SourcePath :: string
  pol_DestinationPath :: string
  pol_Schedule :: string
  pol_RetentionCount :: int
  pol_ArchiveEnabled :: bool
  pol_EncryptionEnabled :: bool
  pol_EncryptionPassword :: string
  pol_CreatedAt :: timestamp
  pol_UpdatedAt :: timestamp
  pol_Status :: string

text \<open>The \<open>Progress\<close> pointer of \<open>BackupJob\<close> is never read or written by the service
  and is left out.\<close>

record BackupJob =
  job_ID :: string
  job_PolicyID :: string
  job_Status :: JobStatus
  job_StartedAt :: timestamp
  job_CompletedAt :: "timestamp option"
  job_Error :: string
  job_FilesProcessed :: int
  job_TotalSize :: int
  job_BackupPath :: string
  job_CreatedAt :: timestamp

record BackupResult =
  res_JobID :: string
  res_BackupPath :: string
  res_FilesProcessed :: int
  res_TotalSize :: int
  res_CompressedSize :: int
  res_Duration :: int
  res_Compressed :: bool
  res_Encrypted :: bool
  res_CompressionRatio :: real
  res_Checksum :: string

text \<open>The zero values of the structs (\<open>&types.BackupPolicy{}\<close> and so on).\<close>

definition zeroPolicy :: BackupPolicy where
  "zeroPolicy = \<lparr>pol_ID = [], pol_Name = [], pol_SourcePath = [], pol_DestinationPath = [],
     pol_Schedule = [], pol_RetentionCount = 0, pol_ArchiveEnabled = False,
     pol_EncryptionEnabled = False, pol_EncryptionPassword = [], pol_CreatedAt = 0,
     pol_UpdatedAt = 0, pol_Status = []\<rparr>"

definition zeroResult :: BackupResult where
  "zeroResult = \<lparr>res_JobID = [], res_BackupPath = [], res_FilesProcessed = 0,
     res_TotalSize = 0, res_CompressedSize = 0, res_Duration = 0, res_Compressed = False,
     res_Encrypted = False, res_CompressionRatio = 0, res_Checksum = []\<rparr>"

section \<open>Catalog (database.go)\<close>

text \<open>
  The four tables of \<open>createTables\<close>, each a list of rows in insertion order. Columns
  that the service always writes from non-nil Go values are modelled as non-NULL;
  \<open>completed_at\<close> is written from a \<open>*time.Time\<close> and is nullable.
\<close>

record policy_row =
  pr_id :: string
  pr_name :: string
  pr_source_path :: string
  pr_destination_path :: string
  pr_schedule_cron :: string
  pr_retention_count :: int
  pr_archive_enabled :: bool
  pr_encryption_enabled :: bool
  pr_encryption_password :: string
  pr_created_at :: timestamp
  pr_updated_at :: timestamp

record job_row =
  jr_id :: string
  jr_policy_id :: string
  jr_status :: string
  jr_started_at :: timestamp
  jr_completed_at :: "timestamp option"
  jr_error :: string
  jr_files_processed :: int
  jr_total_size :: int
  jr_backup_path :: string
  jr_created_at :: timestamp

record result_row =
  rr_id :: string
  rr_job_id :: string
  rr_backup_path :: string
  rr_files_processed :: int
  rr_total_size :: int
  rr_compressed_size :: int
  rr_compression_ratio :: real
  rr_encrypted :: bool
  rr_compressed :: bool
  rr_checksum :: string
  rr_duration_seconds :: int
  rr_created_at :: timestamp

record file_row =
  fr_id :: string
  fr_job_id :: string
  fr_file_path :: string
  fr_relative_path :: string
  fr_file_size :: int
  fr_checksum :: string
  fr_processed :: bool
  fr_created_at :: timestamp

record catalog =
  backup_policies :: "policy_row list"
  backup_jobs :: "job_row list"
  backup_results :: "result_row list"
  backup_files :: "file_row list"

text \<open>
  \<open>ORDER BY created_at DESC\<close>: a stable sort on the negated creation time. SQLite
  leaves the order of rows with equal \<open>created_at\<close> unspecified; the model keeps them in
  table order.
\<close>

definition order_desc :: "('a \<Rightarrow> timestamp) \<Rightarrow> 'a list \<Rightarrow> 'a list" where
  "order_desc created xs = sort_key (\<lambda>r. - created r) xs"

subsection \<open>getAllPolicies\<close>

text \<open>
  The \<open>SELECT\<close> lists ten columns: every column of \<open>backup_policies\<close> but
  \<open>encryption_password\<close>. \<open>rows.Scan\<close> fills the ten matching fields of a zero-valued
  \<open>BackupPolicy\<close>. \<open>query_fails\<close> stands for an error of \<open>QueryContext\<close> or \<open>Scan\<close>.
\<close>

definition scanPolicyNoPassword :: "policy_row \<Rightarrow> BackupPolicy" where
  "scanPolicyNoPassword r = zeroPolicy\<lparr>
     pol_ID := pr_id r,
     pol_Name := pr_name r,
     pol_SourcePath := pr_source_path r,
     pol_DestinationPath := pr_destination_path r,
     pol_Schedule := pr_schedule_cron r,
     pol_RetentionCount := pr_retention_count r,
     pol_ArchiveEnabled := pr_archive_enabled r,
     pol_EncryptionEnabled := pr_encryption_enabled r,
     pol_CreatedAt := pr_created_at r,
     pol_UpdatedAt := pr_updated_at r\<rparr>"

definition getAllPolicies :: "bool \<Rightarrow> catalog \<Rightarrow> error + BackupPolicy list" where
  "getAllPolicies query_fails db =
     (if query_fails then Inl (Wrap ''get policies'' DbError)
      else Inr (map scanPolicyNoPassword (order_desc pr_created_at (backup_policies db))))"

subsection \<open>getPolicy, savePolicy, saveBackupJob, saveBackupResult\<close>

definition scanPolicy :: "policy_row \<Rightarrow> BackupPolicy" where
  "scanPolicy r = (scanPolicyNoPassword r)\<lparr>pol_EncryptionPassword := pr_encryption_password r\<rparr>"

definition getPolicy :: "bool \<Rightarrow> catalog \<Rightarrow> string \<Rightarrow> error + BackupPolicy" where
  "getPolicy query_fails db policyID =
     (if query_fails then Inl (Wrap ''get policy'' DbError)
      else case filter (\<lambda>r. pr_id r = policyID) (backup_policies db) of
             [] \<Rightarrow> Inl (NotFound policyID)
           | r # _ \<Rightarrow> Inr (scanPolicy r))"

text \<open>
  \<open>INSERT OR REPLACE\<close> on the primary key \<open>id\<close>: a row with the same id is removed and
  the new row appended. \<open>created_at\<close> is not in the column list and takes its default,
  the current time \<open>now\<close>.
\<close>

definition savePolicy :: "bool \<Rightarrow> timestamp \<Rightarrow> catalog \<Rightarrow> BackupPolicy \<Rightarrow> error option \<times> catalog" where
  "savePolicy exec_fails now db policy =
     (if exec_fails then (Some (Wrap ''save policy'' DbError), db)
      else (None, db\<lparr>backup_policies :=
              filter (\<lambda>r. pr_id r \<noteq> pol_ID policy) (backup_policies db) @
              [\<lparr>pr_id = pol_ID policy, pr_name = pol_Name policy,
                pr_source_path = pol_SourcePath policy,
                pr_destination_path = pol_DestinationPath policy,
                pr_schedule_cron = pol_Schedule policy,
                pr_retention_count = pol_RetentionCount policy,
                pr_archive_enabled = pol_ArchiveEnabled policy,
                pr_encryption_enabled = pol_EncryptionEnabled policy,
                pr_encryption_password = pol_EncryptionPassword policy,
                pr_created_at = now, pr_updated_at = now\<rparr>]\<rparr>))"

definition jobRow :: "timestamp \<Rightarrow> BackupJob \<Rightarrow> job_row" where
  "jobRow now job = \<lparr>jr_id = job_ID job, jr_policy_id = job_PolicyID job,
     jr_status = job_Status job, jr_started_at = job_StartedAt job,
     jr_completed_at = job_CompletedAt job, jr_error = job_Error job,
     jr_files_processed = job_FilesProcessed job, jr_total_size = job_TotalSize job,
     jr_backup_path = job_BackupPath job, jr_created_at = now\<rparr>"

definition saveBackupJob :: "bool \<Rightarrow> timestamp \<Rightarrow> catalog \<Rightarrow> BackupJob \<Rightarrow> error option \<times> catalog" where
  "saveBackupJob exec_fails now db job =
     (if exec_fails then (Some (Wrap ''save job'' DbError), db)
      else (None, db\<lparr>backup_jobs :=
              filter (\<lambda>r. jr_id r \<noteq> job_ID job) (backup_jobs db) @ [jobRow now job]\<rparr>))"

text \<open>
  \<open>saveBackupResult\<close> is a plain \<open>INSERT\<close> with id \<open>"result_" + JobID\<close>: it fails on a
  primary-key conflict.
\<close>

definition resultRow :: "timestamp \<Rightarrow> BackupResult \<Rightarrow> result_row" where
  "resultRow now res = \<lparr>rr_id = ''result_'' @ res_JobID res, rr_job_id = res_JobID res,
     rr_backup_path = res_BackupPath res, rr_files_processed = res_FilesProcessed res,
     rr_total_size = res_TotalSize res, rr_compressed_size = res_CompressedSize res,
     rr_compression_ratio = res_CompressionRatio res, rr_encrypted = res_Encrypted res,
     rr_compressed = res_Compressed res, rr_checksum = res_Checksum res,
     rr_duration_seconds = res_Duration res, rr_created_at = now\<rparr>"

definition saveBackupResult :: "bool \<Rightarrow> timestamp \<Rightarrow> catalog \<Rightarrow> BackupResult \<Rightarrow> error option \<times> catalog" where
  "saveBackupResult exec_fails now db res =
     (if exec_fails \<or> (''result_'' @ res_JobID res) \<in> set (map rr_id (backup_results db))
      then (Some (Wrap ''save result'' DbError), db)
      else (None, db\<lparr>backup_results := backup_results db @ [resultRow now res]\<rparr>))"

subsection \<open>deletePolicy\<close>

text \<open>
  The transaction makes six calls to the database: \<open>BeginTx\<close> (0), the four
  \<open>DELETE\<close> statements (1 to 4) and \<open>Commit\<close> (5). \<open>fault = Some k\<close> says that call
  \<open>k\<close> returns an error; \<open>None\<close>, or a \<open>k\<close> above 5, that none does. On an error the
  function returns and the deferred \<open>tx.Rollback()\<close> restores the catalog; the
  statements work on the transaction's view \<open>tx\<close>, in which the job rows are still
  present when the two sub-selects run.
\<close>

definition jobIdsOfPolicy :: "catalog \<Rightarrow> string \<Rightarrow> string list" where
  "jobIdsOfPolicy db policyID = map jr_id (filter (\<lambda>j. jr_policy_id j = policyID) (backup_jobs db))"

definition deletePolicy :: "nat option \<Rightarrow> catalog \<Rightarrow> string \<Rightarrow> error option \<times> catalog" where
  "deletePolicy fault db policyID =
     (if fault = Some 0 then (Some (Wrap ''begin transaction'' DbError), db)
      else if fault = Some 1 then (Some (Wrap ''delete backup files'' DbError), db)
      else let tx1 = db\<lparr>backup_files :=
                 filter (\<lambda>r. fr_job_id r \<notin> set (jobIdsOfPolicy db policyID)) (backup_files db)\<rparr>
      in if fault = Some 2 then (Some (Wrap ''delete backup results'' DbError), db)
      else let tx2 = tx1\<lparr>backup_results :=
                 filter (\<lambda>r. rr_job_id r \<notin> set (jobIdsOfPolicy tx1 policyID)) (backup_results tx1)\<rparr>
      in if fault = Some 3 then (Some (Wrap ''delete backup jobs'' DbError), db)
      else let tx3 = tx2\<lparr>backup_jobs :=
                 filter (\<lambda>j. jr_policy_id j \<noteq> policyID) (backup_jobs tx2)\<rparr>
      in if fault = Some 4 then (Some (Wrap ''delete policy'' DbError), db)
      else let tx4 = tx3\<lparr>backup_policies :=
                 filter (\<lambda>p. pr_id p \<noteq> policyID) (backup_policies tx3)\<rparr>
      in if fault = Some 5 then (Some (Wrap ''commit'' DbError), db)
      else (None, tx4))"

section \<open>Paths and the file system (path/filepath and os of the Go library, Unix)\<close>

text \<open>
  \<open>strings.Split(s, "/")\<close> and \<open>strings.Join(xs, "/")\<close>.
\<close>

fun splitSlash :: "string \<Rightarrow> string list" where
  "splitSlash [] = [[]]"
| "splitSlash (c # cs) =
     (if c = CHR ''/'' then [] # splitSlash cs
      else case splitSlash cs of
             [] \<Rightarrow> [[c]]
           | w # ws \<Rightarrow> (c # w) # ws)"

fun joinSlash :: "string list \<Rightarrow> string" where
  "joinSlash [] = []"
| "joinSlash [x] = x"
| "joinSlash (x # y # ys) = x @ ''/'' @ joinSlash (y # ys)"

text \<open>
  \<open>filepath.Clean\<close>, by path elements. The library scans the path and keeps an output
  buffer; the elements written so far are the stack \<open>st\<close> (top first). An empty
  element and \<open>.\<close> are dropped; \<open>..\<close> removes the element on top when there is one
  that is not itself \<open>..\<close>, is dropped at the root of a rooted path, and is kept
  otherwise; the empty result is \<open>.\<close>.
\<close>

definition cleanStep :: "bool \<Rightarrow> string list \<Rightarrow> string \<Rightarrow> string list" where
  "cleanStep rooted st c =
     (if c = [] \<or> c = ''.'' then st
      else if c = ''..'' then
        (case st of
           [] \<Rightarrow> (if rooted then [] else [''..''])
         | t # ts \<Rightarrow> (if t = ''..'' then ''..'' # st else ts))
      else c # st)"

definition isRooted :: "string \<Rightarrow> bool" where
  "isRooted path = (case path of [] \<Rightarrow> False | c # _ \<Rightarrow> c = CHR ''/'')"

definition cleanElems :: "string \<Rightarrow> string list" where
  "cleanElems path = rev (foldl (cleanStep (isRooted path)) [] (splitSlash path))"

definition filepath_Clean :: "string \<Rightarrow> string" where
  "filepath_Clean path =
     (if path = [] then ''.''
      else let out = (if isRooted path then ''/'' else []) @ joinSlash (cleanElems path)
           in if out = [] then ''.'' else out)"

text \<open>\<open>filepath.Join\<close> of two elements: empty elements are ignored, the rest is joined
  with a slash and cleaned; all empty gives the empty string.\<close>

definition filepath_Join :: "string \<Rightarrow> string \<Rightarrow> string" where
  "filepath_Join a b =
     (if a \<noteq> [] then filepath_Clean (a @ ''/'' @ b)
      else if b \<noteq> [] then filepath_Clean b
      else [])"

text \<open>\<open>filepath.Dir\<close>: everything up to and including the last slash, cleaned.\<close>

definition filepath_Dir :: "string \<Rightarrow> string" where
  "filepath_Dir path = filepath_Clean (rev (dropWhile (\<lambda>c. c \<noteq> CHR ''/'') (rev path)))"

text \<open>
  The file system: a finite table from path names to nodes. A file is named by the
  path string the program passes to \<open>os\<close>; symbolic links, permissions checks and the
  working directory are not modelled.
\<close>

datatype fsnode =
    RegFile (node_mode: nat) (node_data: bytes)
  | DirNode (node_mode: nat)

type_synonym filesystem = "(string \<times> fsnode) list"

definition isUnder :: "string \<Rightarrow> string \<Rightarrow> bool" where
  "isUnder dir p = (prefix (dir @ ''/'') p \<and> p \<noteq> dir @ ''/'')"


section \<open>Storage backends\<close>

subsection \<open>LocalStorage\<close>


text \<open>\<open>os.Stat\<close> fails with a not-exist error exactly when the path is absent; the model
  has no other \<open>Stat\<close> failure.\<close>

definition LocalStorage_Exists :: "string \<Rightarrow> filesystem \<Rightarrow> string \<Rightarrow> error + bool" where
  "LocalStorage_Exists basePath fs remotePath =
     (let fullPath = filepath_Join basePath remotePath in
      case map_of fs fullPath of None \<Rightarrow> Inr False | Some n \<Rightarrow> Inr True)"

subsection \<open>The StorageProvider interface as the service sees it\<close>

text \<open>
  The service holds one \<open>StorageProvider\<close>. The model is an object store: a map from
  remote paths to contents, with the one behaviour in which the backends differ for
  the retention engine, \<open>absent_delete_fails\<close>: \<open>Delete\<close> of a missing object is an
  error for \<open>LocalStorage\<close> (\<open>os.Remove\<close>) and for \<open>GCSStorage\<close>, and succeeds for
  \<open>S3Storage\<close>. Failures of the transport are decided by the fault record below; a
  failed call leaves the store as it was (\<open>MultiStorage\<close>, which can fail after some
  of its backends have been changed, is not modelled).
\<close>

record storage =
  objects :: "string \<rightharpoonup> bytes"
  absent_delete_fails :: bool

text \<open>
  What the environment decides: whether the policy and history queries fail, for which paths
  \<open>Exists\<close>, \<open>Delete\<close> report a transport error, whether \<open>Upload\<close> does, and for
  which job id a call of the \<open>deleteBackup\<close> transaction fails (and which call).
\<close>

record faults =
  policies_query_fails :: bool
  history_query_fails :: bool
  exists_fails :: "string \<Rightarrow> bool"
  delete_fails :: "string \<Rightarrow> bool"
  upload_fails :: bool
  tx_fault :: "string \<Rightarrow> nat option"

definition storage_Exists :: "faults \<Rightarrow> storage \<Rightarrow> string \<Rightarrow> error + bool" where
  "storage_Exists F st path =
     (if exists_fails F path then Inl StorageFailure
      else Inr (objects st path \<noteq> None))"

definition storage_Delete :: "faults \<Rightarrow> storage \<Rightarrow> string \<Rightarrow> error option \<times> storage" where
  "storage_Delete F st path =
     (if delete_fails F path then (Some StorageFailure, st)
      else if objects st path = None \<and> absent_delete_fails st then (Some NotExist, st)
      else (None, st\<lparr>objects := (objects st)(path := None)\<rparr>))"

definition storage_Upload :: "faults \<Rightarrow> storage \<Rightarrow> bytes \<Rightarrow> string \<Rightarrow> error option \<times> storage" where
  "storage_Upload F st data remotePath =
     (if upload_fails F then (Some StorageFailure, st)
      else (None, st\<lparr>objects := (objects st)(remotePath \<mapsto> data)\<rparr>))"

section \<open>The service\<close>

text \<open>
  The service's mutable world: the catalog behind \<open>s.db\<close>, the store behind
  \<open>s.storage\<close>, and the lines written to the loggers (level and an English tag for
  the message), oldest first.
\<close>

datatype level = LInfo | LWarn | LError

record service =
  svc_db :: catalog
  svc_storage :: storage
  svc_log :: "(level \<times> string) list"

definition logLine :: "level \<Rightarrow> string \<Rightarrow> service \<Rightarrow> service" where
  "logLine lv msg s = s\<lparr>svc_log := svc_log s @ [(lv, msg)]\<rparr>"

section \<open>Retention engine\<close>

subsection \<open>getBackupHistory\<close>

definition scanJob :: "job_row \<Rightarrow> BackupJob" where
  "scanJob r = \<lparr>job_ID = jr_id r, job_PolicyID = jr_policy_id r, job_Status = jr_status r,
     job_StartedAt = jr_started_at r, job_CompletedAt = jr_completed_at r,
     job_Error = jr_error r, job_FilesProcessed = jr_files_processed r,
     job_TotalSize = jr_total_size r, job_BackupPath = jr_backup_path r,
     job_CreatedAt = jr_created_at r\<rparr>"

text \<open>\<open>LIMIT n\<close> with a negative \<open>n\<close> is no limit in SQLite.\<close>

definition sqlLimit :: "int \<Rightarrow> 'a list \<Rightarrow> 'a list" where
  "sqlLimit n xs = (if n < 0 then xs else take (nat n) xs)"

definition getBackupHistory :: "faults \<Rightarrow> catalog \<Rightarrow> string \<Rightarrow> int \<Rightarrow> error + BackupJob list" where
  "getBackupHistory F db policyID limit =
     (if history_query_fails F then Inl (Wrap ''backup history query'' DbError)
      else Inr (map scanJob (sqlLimit limit
             (order_desc jr_created_at (filter (\<lambda>j. jr_policy_id j = policyID) (backup_jobs db))))))"

subsection \<open>getBackupsForPolicy\<close>

text \<open>The verification loop: the jobs whose artifact \<open>Exists\<close> reports present, and the
  warnings logged for the others.\<close>

fun verifyBackups :: "faults \<Rightarrow> storage \<Rightarrow> BackupJob list \<Rightarrow> BackupJob list \<times> (level \<times> string) list" where
  "verifyBackups F st [] = ([], [])"
| "verifyBackups F st (backup # rest) =
     (case verifyBackups F st rest of (verified, lg) \<Rightarrow>
        (case storage_Exists F st (job_BackupPath backup) of
           Inl e \<Rightarrow> (verified, (LWarn, ''backup existence check failed'') # lg)
         | Inr exists \<Rightarrow>
             (if exists then (backup # verified, lg)
              else (verified, (LWarn, ''backup not found in storage'') # lg))))"

definition getBackupsForPolicy :: "faults \<Rightarrow> service \<Rightarrow> BackupPolicy \<Rightarrow> (error + BackupJob list) \<times> service" where
  "getBackupsForPolicy F s policy =
     (case getBackupHistory F (svc_db s) (pol_ID policy) 1000 of
        Inl e \<Rightarrow> (Inl (Wrap ''backup history'' e), s)
      | Inr dbBackups \<Rightarrow>
          (let successfulBackups =
                 filter (\<lambda>b. job_Status b = JobStatusCompleted \<and> job_BackupPath b \<noteq> []) dbBackups
           in case verifyBackups F (svc_storage s) successfulBackups of
                (verifiedBackups, lg) \<Rightarrow> (Inr verifiedBackups, s\<lparr>svc_log := svc_log s @ lg\<rparr>)))"

subsection \<open>deleteBackup\<close>

text \<open>
  The artifact is deleted from the store first, outside the transaction. The
  transaction then makes five calls: \<open>BeginTx\<close> (0), \<open>DELETE FROM backup_files\<close> (1),
  \<open>DELETE FROM backup_results\<close> (2), \<open>UPDATE backup_jobs SET status = 'deleted'\<close> (3) and
  \<open>Commit\<close> (4); a failing call leaves the catalog as it was, through the deferred
  rollback. The job row is kept, with the status \<open>deleted\<close>.
\<close>

definition deleteBackupTx :: "nat option \<Rightarrow> catalog \<Rightarrow> string \<Rightarrow> error option \<times> catalog" where
  "deleteBackupTx fault db backupID =
     (if fault = Some 0 then (Some (Wrap ''begin transaction'' DbError), db)
      else if fault = Some 1 then (Some (Wrap ''delete file records'' DbError), db)
      else let tx1 = db\<lparr>backup_files := filter (\<lambda>r. fr_job_id r \<noteq> backupID) (backup_files db)\<rparr>
      in if fault = Some 2 then (Some (Wrap ''delete backup result'' DbError), db)
      else let tx2 = tx1\<lparr>backup_results := filter (\<lambda>r. rr_job_id r \<noteq> backupID) (backup_results tx1)\<rparr>
      in if fault = Some 3 then (Some (Wrap ''update job status'' DbError), db)
      else let tx3 = tx2\<lparr>backup_jobs :=
                 map (\<lambda>j. if jr_id j = backupID then j\<lparr>jr_status := ''deleted''\<rparr> else j) (backup_jobs tx2)\<rparr>
      in if fault = Some 4 then (Some (Wrap ''commit'' DbError), db)
      else (None, tx3))"

definition deleteBackup :: "faults \<Rightarrow> service \<Rightarrow> BackupJob \<Rightarrow> error option \<times> service" where
  "deleteBackup F s backup =
     (case storage_Delete F (svc_storage s) (job_BackupPath backup) of
        (Some e, st) \<Rightarrow> (Some (Wrap ''delete file from storage'' e), s)
      | (None, st) \<Rightarrow>
          (case deleteBackupTx (tx_fault F (job_ID backup)) (svc_db s) (job_ID backup) of
             (Some e, db) \<Rightarrow> (Some e, s\<lparr>svc_storage := st\<rparr>)
           | (None, db) \<Rightarrow> (None, s\<lparr>svc_storage := st, svc_db := db\<rparr>)))"

subsection \<open>cleanupOldBackups\<close>

text \<open>
  \<open>sort.Slice\<close> with \<open>CreatedAt.After\<close>: newest first. \<open>sort.Slice\<close> is not stable;
  the model's order of backups with equal creation times (table order) need not be
  Go's, and with distinct creation times the sorted order is unique.
\<close>

definition sortNewestFirst :: "BackupJob list \<Rightarrow> BackupJob list" where
  "sortNewestFirst backups = sort_key (\<lambda>b. - job_CreatedAt b) backups"

text \<open>The deletion loop: a failed deletion is logged as a warning and the loop goes on.\<close>

fun deleteLoop :: "faults \<Rightarrow> service \<Rightarrow> BackupJob list \<Rightarrow> service" where
  "deleteLoop F s [] = s"
| "deleteLoop F s (backup # rest) =
     (case deleteBackup F s backup of
        (Some e, s') \<Rightarrow> deleteLoop F (logLine LWarn ''backup deletion failed'' s') rest
      | (None, s') \<Rightarrow> deleteLoop F (logLine LInfo ''backup deleted'' s') rest)"

definition cleanupOldBackups :: "faults \<Rightarrow> service \<Rightarrow> BackupPolicy \<Rightarrow> error option \<times> service" where
  "cleanupOldBackups F s policy =
     (if pol_RetentionCount policy \<le> 0
      then (None, logLine LInfo ''cleanup skipped: unlimited retention'' s)
      else case getBackupsForPolicy F s policy of
        (Inl e, s1) \<Rightarrow> (Some (Wrap ''list backups'' e), s1)
      | (Inr backups, s1) \<Rightarrow>
          (if int (length backups) \<le> pol_RetentionCount policy
           then (None, logLine LInfo ''cleanup not needed'' s1)
           else let sorted = sortNewestFirst backups;
                    backupsToDelete = drop (nat (pol_RetentionCount policy)) sorted;
                    s2 = logLine LInfo ''starting cleanup of old backups'' s1;
                    s3 = deleteLoop F s2 backupsToDelete
                in (None, logLine LInfo ''cleanup of old backups finished'' s3)))"

text \<open>\<open>applyRetentionPolicies\<close>: count-based retention for every policy of
  \<open>getAllPolicies\<close>; an error of one policy is logged and the loop goes on.\<close>

fun retentionLoop :: "faults \<Rightarrow> service \<Rightarrow> BackupPolicy list \<Rightarrow> service" where
  "retentionLoop F s [] = s"
| "retentionLoop F s (policy # rest) =
     (case cleanupOldBackups F s policy of
        (Some e, s') \<Rightarrow> retentionLoop F (logLine LWarn ''retention policy failed'' s') rest
      | (None, s') \<Rightarrow> retentionLoop F s' rest)"

definition applyRetentionPolicies :: "faults \<Rightarrow> service \<Rightarrow> error option \<times> service" where
  "applyRetentionPolicies F s =
     (case getAllPolicies (policies_query_fails F) (svc_db s) of
        Inl e \<Rightarrow> (Some (Wrap ''get policies'' e), s)
      | Inr policies \<Rightarrow>
          (let s1 = logLine LInfo ''applying retention policies'' s;
               s2 = retentionLoop F s1 policies
           in (None, logLine LInfo ''retention policies applied'' s2)))"

section \<open>Encryption codec\<close>

text \<open>
  The primitives of the Go libraries are parameters: \<open>pbkdf2.Key\<close> (with SHA-256),
  and \<open>Seal\<close> and \<open>Open\<close> of the AES-GCM \<open>cipher.AEAD\<close> with no additional data.
  \<open>Open\<close> returns \<open>None\<close> for "message authentication failed". The nonce size and
  the overhead are those of standard GCM.
\<close>

record crypto =
  pbkdf2_Key :: "bytes \<Rightarrow> bytes \<Rightarrow> nat \<Rightarrow> nat \<Rightarrow> bytes"
  gcm_Seal :: "bytes \<Rightarrow> bytes \<Rightarrow> bytes \<Rightarrow> bytes"
  gcm_Open :: "bytes \<Rightarrow> bytes \<Rightarrow> bytes \<Rightarrow> bytes option"

definition gcm_NonceSize :: nat where "gcm_NonceSize = 12"
definition gcm_Overhead :: nat where "gcm_Overhead = 16"

text \<open>The buffer of \<open>encryptFile\<close>: \<open>64*1024\<close> bytes.\<close>

definition blockSize :: nat where "blockSize = 64 * 1024"

definition bytesOf :: "string \<Rightarrow> bytes" where
  "bytesOf s = map of_char s"

definition deriveKey :: "crypto \<Rightarrow> string \<Rightarrow> bytes" where
  "deriveKey C password =
     (let salt = bytesOf ''backupist-salt-2024''
      in pbkdf2_Key C (bytesOf password) salt 100000 32)"

text \<open>\<open>incrementNonce\<close>: from the last byte backwards, add one and stop at the first
  byte that does not wrap to zero.\<close>

fun incrementRev :: "bytes \<Rightarrow> bytes" where
  "incrementRev [] = []"
| "incrementRev (b # bs) = (if b + 1 \<noteq> 0 then (b + 1) # bs else (b + 1) # incrementRev bs)"

definition incrementNonce :: "bytes \<Rightarrow> bytes" where
  "incrementNonce nonce = rev (incrementRev (rev nonce))"

text \<open>
  The loops work on the contents of the files: \<open>rest\<close> is what is still to be read
  of the input, \<open>out\<close> what has been written to the output. A \<open>Read\<close> of a regular
  file fills the buffer unless the file ends first, so each round takes
  \<open>min (length buffer) (length rest)\<close> bytes, and \<open>n == 0\<close> is the end of the file.
  \<open>cancelled\<close> says whether the context is done; it is checked at the top of every
  round. Errors of reading and writing the files are not modelled.
\<close>

function encryptLoop :: "crypto \<Rightarrow> bool \<Rightarrow> bytes \<Rightarrow> bytes \<Rightarrow> bytes \<Rightarrow> bytes \<Rightarrow> error option \<times> bytes" where
  "encryptLoop C cancelled key nonce rest out =
     (if cancelled then (Some Cancelled, out)
      else if rest = [] then (None, out)
      else let ciphertext = gcm_Seal C key nonce (take blockSize rest)
           in encryptLoop C cancelled key (incrementNonce nonce) (drop blockSize rest)
                (out @ ciphertext))"
  by pat_completeness auto
termination
  by (relation "measure (\<lambda>(C, cancelled, key, nonce, rest, out). length rest)")
    (auto simp: blockSize_def)

text \<open>
  \<open>encryptFile\<close> on the content \<open>input\<close> of the input file; \<open>random\<close> is what
  \<open>rand.Reader\<close> delivers. The result is the error, if any, and the content of the
  output file. \<open>aes.NewCipher\<close> accepts keys of 16, 24 or 32 bytes.
\<close>

definition encryptFile :: "crypto \<Rightarrow> bool \<Rightarrow> bytes \<Rightarrow> string \<Rightarrow> bytes \<Rightarrow> error option \<times> bytes" where
  "encryptFile C cancelled random password input =
     (let key = deriveKey C password in
      if length key \<notin> {16, 24, 32} then (Some (Wrap ''create AES cipher'' IOError), [])
      else if length random < gcm_NonceSize then (Some (Wrap ''generate nonce'' IOError), [])
      else let nonce = take gcm_NonceSize random
           in encryptLoop C cancelled key nonce input nonce)"

function decryptLoop :: "crypto \<Rightarrow> bool \<Rightarrow> bytes \<Rightarrow> bytes \<Rightarrow> bytes \<Rightarrow> bytes \<Rightarrow> error option \<times> bytes" where
  "decryptLoop C cancelled key nonce rest out =
     (if cancelled then (Some Cancelled, out)
      else if rest = [] then (None, out)
      else case gcm_Open C key nonce (take (blockSize + gcm_Overhead) rest) of
             None \<Rightarrow> (Some (Wrap ''decrypt block'' AuthError), out)
           | Some plaintext \<Rightarrow>
               decryptLoop C cancelled key (incrementNonce nonce)
                 (drop (blockSize + gcm_Overhead) rest) (out @ plaintext))"
  by pat_completeness auto
termination
  by (relation "measure (\<lambda>(C, cancelled, key, nonce, rest, out). length rest)")
    (auto simp: blockSize_def)

definition decryptFile :: "crypto \<Rightarrow> bool \<Rightarrow> string \<Rightarrow> bytes \<Rightarrow> error option \<times> bytes" where
  "decryptFile C cancelled password input =
     (let key = deriveKey C password in
      if length key \<notin> {16, 24, 32} then (Some (Wrap ''create AES cipher'' IOError), [])
      else if length input < gcm_NonceSize then (Some (Wrap ''read nonce'' IOError), [])
      else let nonce = take gcm_NonceSize input
           in decryptLoop C cancelled key nonce (drop gcm_NonceSize input) [])"

text \<open>
  What the statements ask of the primitives: the key has the requested length,
  \<open>Open\<close> inverts \<open>Seal\<close> under the same key and nonce, and \<open>Seal\<close> adds the overhead
  to the length.
\<close>

definition crypto_correct :: "crypto \<Rightarrow> bool" where
  "crypto_correct C =
     ((\<forall>pw salt iter n. length (pbkdf2_Key C pw salt iter n) = n) \<and>
      (\<forall>k n p. gcm_Open C k n (gcm_Seal C k n p) = Some p) \<and>
      (\<forall>k n p. length (gcm_Seal C k n p) = length p + gcm_Overhead))"

declare encryptLoop.simps [simp del] decryptLoop.simps [simp del]

section \<open>Archive codec: extraction\<close>

subsection \<open>The calls of package os that extraction makes\<close>

text \<open>
  \<open>os.MkdirAll\<close> walks the ancestors of the path from the top: an existing directory is
  kept, a regular file in the way is an error, a missing one is created with the given
  mode (the process umask is not modelled). \<open>.\<close> and \<open>..\<close> name directories that
  exist.
\<close>

definition ancestors :: "string \<Rightarrow> string list" where
  "ancestors path = filter (\<lambda>p. p \<noteq> []) (map joinSlash (prefixes (splitSlash path)))"

definition isDotPath :: "string \<Rightarrow> bool" where
  "isDotPath p = (last (splitSlash p) = ''.'' \<or> last (splitSlash p) = ''..'')"

fun mkdirEach :: "filesystem \<Rightarrow> string list \<Rightarrow> nat \<Rightarrow> error + filesystem" where
  "mkdirEach fs [] perm = Inr fs"
| "mkdirEach fs (p # ps) perm =
     (if isDotPath p then mkdirEach fs ps perm
      else case map_of fs p of
             Some (DirNode m) \<Rightarrow> mkdirEach fs ps perm
           | Some (RegFile m d) \<Rightarrow> Inl IOError
           | None \<Rightarrow> mkdirEach (AList.update p (DirNode perm) fs) ps perm)"

definition os_MkdirAll :: "filesystem \<Rightarrow> string \<Rightarrow> nat \<Rightarrow> error + filesystem" where
  "os_MkdirAll fs path perm = mkdirEach fs (ancestors path) perm"

text \<open>
  \<open>os.OpenFile\<close> for writing. A missing file is created, empty, with the mode given,
  when \<open>O_CREATE\<close> is set; an existing regular file keeps its mode, and keeps its
  content unless \<open>O_TRUNC\<close> is set; a directory cannot be opened for writing.
  \<open>os.Create\<close> is \<open>OpenFile\<close> with \<open>O_RDWR|O_CREATE|O_TRUNC\<close> and mode \<open>0666\<close>.
\<close>

datatype open_flag = O_WRONLY | O_RDWR | O_CREATE | O_TRUNC

definition os_OpenFile :: "filesystem \<Rightarrow> string \<Rightarrow> open_flag list \<Rightarrow> nat \<Rightarrow> error + filesystem" where
  "os_OpenFile fs name flags perm =
     (case map_of fs name of
        None \<Rightarrow> (if O_CREATE \<in> set flags then Inr (AList.update name (RegFile perm []) fs)
                 else Inl NotExist)
      | Some (DirNode m) \<Rightarrow> Inl IOError
      | Some (RegFile m d) \<Rightarrow>
          (if O_TRUNC \<in> set flags then Inr (AList.update name (RegFile m []) fs) else Inr fs))"

definition os_Create :: "filesystem \<Rightarrow> string \<Rightarrow> error + filesystem" where
  "os_Create fs name = os_OpenFile fs name [O_RDWR, O_CREATE, O_TRUNC] 438"

text \<open>
  Writing \<open>data\<close> through a freshly opened file: the bytes go to offset 0 and replace
  what was there; bytes of the old content beyond the end of \<open>data\<close> stay.
\<close>

definition file_Write :: "filesystem \<Rightarrow> string \<Rightarrow> bytes \<Rightarrow> filesystem" where
  "file_Write fs name data =
     (case map_of fs name of
        Some (RegFile m old) \<Rightarrow> AList.update name (RegFile m (data @ drop (length data) old)) fs
      | _ \<Rightarrow> fs)"

subsection \<open>extractArchive\<close>

text \<open>
  The archive as the tar reader delivers it: what the successive calls of \<open>Next\<close>
  return before \<open>io.EOF\<close>, a header with the entry's content or a read error; \<open>Inl\<close>
  when the file cannot be opened or is not gzip. Of the header, extraction reads the
  name, the type flag and the mode.
\<close>

datatype typeflag = TypeReg | TypeDir | TypeOther char

record tar_header =
  hdr_Name :: string
  hdr_Typeflag :: typeflag
  hdr_Mode :: nat

datatype tar_item = Entry tar_header bytes | ReadError

text \<open>
  One round of the loop for an entry: the cancellation check, the destination path,
  the zip-slip check, and the switch on the type flag. An entry of another type is
  skipped (with a warning in the log, which this model of the file system leaves out).
\<close>

definition extractEntry :: "bool \<Rightarrow> filesystem \<Rightarrow> string \<Rightarrow> tar_header \<Rightarrow> bytes \<Rightarrow> error + filesystem" where
  "extractEntry cancelled fs destPath header data =
     (if cancelled then Inl Cancelled
      else let fullPath = filepath_Join destPath (hdr_Name header) in
        if \<not> prefix (filepath_Clean destPath @ ''/'') fullPath
        then Inl (UnsafePath (hdr_Name header))
        else case hdr_Typeflag header of
          TypeDir \<Rightarrow>
            (case os_MkdirAll fs fullPath (hdr_Mode header) of
               Inl e \<Rightarrow> Inl (Wrap ''create directory'' e)
             | Inr fs1 \<Rightarrow> Inr fs1)
        | TypeReg \<Rightarrow>
            (case os_MkdirAll fs (filepath_Dir fullPath) 493 of
               Inl e \<Rightarrow> Inl (Wrap ''create directory for file'' e)
             | Inr fs1 \<Rightarrow>
                 (case os_OpenFile fs1 fullPath [O_CREATE, O_WRONLY] (hdr_Mode header) of
                    Inl e \<Rightarrow> Inl (Wrap ''create file'' e)
                  | Inr fs2 \<Rightarrow> Inr (file_Write fs2 fullPath data)))
        | TypeOther c \<Rightarrow> Inr fs)"

text \<open>The loop: what earlier entries wrote stays when a later entry fails.\<close>

fun extractLoop :: "bool \<Rightarrow> filesystem \<Rightarrow> string \<Rightarrow> tar_item list \<Rightarrow> error option \<times> filesystem" where
  "extractLoop cancelled fs destPath [] = (None, fs)"
| "extractLoop cancelled fs destPath (ReadError # rest) = (Some (Wrap ''read tar header'' IOError), fs)"
| "extractLoop cancelled fs destPath (Entry header data # rest) =
     (case extractEntry cancelled fs destPath header data of
        Inl e \<Rightarrow> (Some e, fs)
      | Inr fs' \<Rightarrow> extractLoop cancelled fs' destPath rest)"

definition extractArchive :: "bool \<Rightarrow> filesystem \<Rightarrow> error + tar_item list \<Rightarrow> string \<Rightarrow> error option \<times> filesystem" where
  "extractArchive cancelled fs archive destPath =
     (case archive of
        Inl e \<Rightarrow> (Some (Wrap ''open archive'' e), fs)
      | Inr items \<Rightarrow> extractLoop cancelled fs destPath items)"

text \<open>
  A path that lies under a root, by path elements: after cleaning, the elements of the
  root are a proper prefix of the elements of the path, and what follows the prefix has
  no \<open>..\<close>.
\<close>

definition isDescendant :: "string \<Rightarrow> string \<Rightarrow> bool" where
  "isDescendant rootDir p =
     (isRooted rootDir = isRooted p \<and>
      strict_prefix (cleanElems rootDir) (cleanElems p) \<and>
      ''..'' \<notin> set (drop (length (cleanElems rootDir)) (cleanElems p)))"

section \<open>Pipeline orchestrator\<close>

subsection \<open>Walking the file system\<close>

text \<open>
  \<open>filepath.Walk\<close>: the root, then everything under it when it is a directory;
  \<open>None\<close> when the root does not exist. Go visits the entries in lexical order, the
  model in table order; the functions below only sum and collect.
\<close>

definition walk :: "filesystem \<Rightarrow> string \<Rightarrow> (string \<times> fsnode) list option" where
  "walk fs rootPath =
     (case map_of fs rootPath of
        None \<Rightarrow> None
      | Some (RegFile m d) \<Rightarrow> Some [(rootPath, RegFile m d)]
      | Some (DirNode m) \<Rightarrow>
          Some ((rootPath, DirNode m) # filter (\<lambda>(p, n). isUnder rootPath p) (AList.clearjunk fs)))"

definition isDir :: "fsnode \<Rightarrow> bool" where
  "isDir n = (case n of DirNode m \<Rightarrow> True | RegFile m d \<Rightarrow> False)"

definition nodeSize :: "fsnode \<Rightarrow> int" where
  "nodeSize n = (case n of RegFile m d \<Rightarrow> int (length d) | DirNode m \<Rightarrow> 0)"

text \<open>\<open>os.RemoveAll\<close>.\<close>

definition os_RemoveAll :: "filesystem \<Rightarrow> string \<Rightarrow> filesystem" where
  "os_RemoveAll fs path = filter (\<lambda>(p, n). p \<noteq> path \<and> \<not> isUnder path p) fs"

subsection \<open>What the environment supplies to a run\<close>

text \<open>
  Whether the context is cancelled, the directory name \<open>os.MkdirTemp\<close> picks (or its
  error), the clock, the random bytes, and the library functions that the model does not
  look into: \<open>filepath.Rel\<close>, the tar and gzip encoding of the walked entries (given the
  base directory), the primitives of the encryption codec, and the SHA-256 digest in
  hexadecimal.
\<close>

record env =
  env_cancelled :: bool
  env_mkdirTemp :: "error + string"
  env_timestamp :: string
  env_startedAt :: timestamp
  env_completedAt :: timestamp
  env_duration :: int
  env_Rel :: "string \<Rightarrow> string \<Rightarrow> error + string"
  env_targz :: "string \<Rightarrow> (string \<times> fsnode) list \<Rightarrow> bytes"
  env_random :: bytes
  env_crypto :: crypto
  env_sha256hex :: "bytes \<Rightarrow> string"

subsection \<open>scanDirectory, copyFiles, generateBackupName, generateRemotePath, calculateChecksum\<close>

definition scanDirectory :: "bool \<Rightarrow> filesystem \<Rightarrow> string \<Rightarrow> error + (string list \<times> int)" where
  "scanDirectory cancelled fs path =
     (case walk fs path of
        None \<Rightarrow> Inl NotExist
      | Some entries \<Rightarrow>
          (if cancelled then Inl Cancelled
           else Inr (map fst (filter (\<lambda>(p, n). \<not> isDir n) entries),
                     sum_list (map (\<lambda>(p, n). nodeSize n) (filter (\<lambda>(p, n). \<not> isDir n) entries)))))"

definition copyFile :: "filesystem \<Rightarrow> string \<Rightarrow> string \<Rightarrow> error option \<times> filesystem" where
  "copyFile fs src dst =
     (case map_of fs src of
        None \<Rightarrow> (Some NotExist, fs)
      | Some node \<Rightarrow>
          (case os_Create fs dst of
             Inl e \<Rightarrow> (Some e, fs)
           | Inr fs1 \<Rightarrow>
               (case node of
                  DirNode m \<Rightarrow> (Some IOError, fs1)
                | RegFile m d \<Rightarrow> (None, file_Write fs1 dst d))))"

fun copyFiles :: "env \<Rightarrow> filesystem \<Rightarrow> string \<Rightarrow> string \<Rightarrow> string list \<Rightarrow> error option \<times> filesystem" where
  "copyFiles env fs sourcePath destPath [] = (None, fs)"
| "copyFiles env fs sourcePath destPath (file # rest) =
     (case env_Rel env sourcePath file of
        Inl e \<Rightarrow> (Some (Wrap ''relative path'' e), fs)
      | Inr relPath \<Rightarrow>
          (let destFile = filepath_Join destPath relPath in
           case os_MkdirAll fs (filepath_Dir destFile) 493 of
             Inl e \<Rightarrow> (Some (Wrap ''create directory'' e), fs)
           | Inr fs1 \<Rightarrow>
               (case copyFile fs1 file destFile of
                  (Some e, fs2) \<Rightarrow> (Some (Wrap ''copy file'' e), fs2)
                | (None, fs2) \<Rightarrow>
                    (if env_cancelled env then (Some Cancelled, fs2)
                     else copyFiles env fs2 sourcePath destPath rest))))"

definition generateBackupName :: "env \<Rightarrow> BackupPolicy \<Rightarrow> string" where
  "generateBackupName env policy =
     (let timestamp = env_timestamp env;
          baseName = map (\<lambda>c. if c = CHR '' '' then CHR ''-'' else c) (pol_Name policy)
      in baseName @ ''-'' @ timestamp)"

text \<open>\<open>strings.SplitN(s, "/", 4)\<close>: at most four parts, the last one unsplit.\<close>

definition splitN4 :: "string \<Rightarrow> string list" where
  "splitN4 s = (let xs = splitSlash s
                in if length xs \<le> 4 then xs else take 3 xs @ [joinSlash (drop 3 xs)])"

definition generateRemotePath :: "BackupPolicy \<Rightarrow> string \<Rightarrow> string" where
  "generateRemotePath policy backupName =
     (if prefix ''s3://'' (pol_DestinationPath policy) \<or>
         prefix ''gcs://'' (pol_DestinationPath policy)
      then (let parts = splitN4 (pol_DestinationPath policy)
            in if length parts \<ge> 4 then (parts ! 3) @ ''/'' @ backupName else backupName)
      else filepath_Join (pol_DestinationPath policy) backupName)"

text \<open>Reading a directory through \<open>io.Copy\<close> fails.\<close>

definition calculateChecksum :: "env \<Rightarrow> filesystem \<Rightarrow> string \<Rightarrow> error + string" where
  "calculateChecksum env fs filePath =
     (case map_of fs filePath of
        None \<Rightarrow> Inl NotExist
      | Some (DirNode m) \<Rightarrow> Inl IOError
      | Some (RegFile m d) \<Rightarrow> Inr (env_sha256hex env d))"

subsection \<open>createArchive, getDirectorySize, getFileSize\<close>

text \<open>
  \<open>createArchive\<close> creates the output file, walks the source tree, skips the archive
  itself and writes the encoding of the entries; when the walk fails, the deferred
  \<open>Close\<close> calls still write the encoding of no entries. Errors of reading single
  files are not modelled.
\<close>

definition createArchive :: "env \<Rightarrow> filesystem \<Rightarrow> string \<Rightarrow> string \<Rightarrow> error option \<times> filesystem" where
  "createArchive env fs sourcePath archivePath =
     (case os_Create fs archivePath of
        Inl e \<Rightarrow> (Some (Wrap ''create archive file'' e), fs)
      | Inr fs1 \<Rightarrow>
          (let baseDir = filepath_Dir sourcePath in
           case walk fs1 sourcePath of
             None \<Rightarrow> (Some (Wrap ''create archive'' NotExist),
                      file_Write fs1 archivePath (env_targz env baseDir []))
           | Some entries \<Rightarrow>
               (if env_cancelled env
                then (Some (Wrap ''create archive'' Cancelled),
                      file_Write fs1 archivePath (env_targz env baseDir []))
                else (None, file_Write fs1 archivePath
                        (env_targz env baseDir (filter (\<lambda>(p, n). p \<noteq> archivePath) entries))))))"

text \<open>
  The callback of \<open>getDirectorySize\<close> logs an error of the walk and returns \<open>nil\<close>, so
  a missing path gives the size 0 and no error.
\<close>

definition getDirectorySize :: "filesystem \<Rightarrow> string \<Rightarrow> error + int" where
  "getDirectorySize fs path =
     (case walk fs path of
        None \<Rightarrow> Inr 0
      | Some entries \<Rightarrow>
          Inr (sum_list (map (\<lambda>(p, n). nodeSize n) (filter (\<lambda>(p, n). \<not> isDir n) entries))))"

text \<open>The size \<open>Stat\<close> reports for a directory depends on the system; the model gives 0.\<close>

definition getFileSize :: "filesystem \<Rightarrow> string \<Rightarrow> error + int" where
  "getFileSize fs filePath =
     (case map_of fs filePath of
        None \<Rightarrow> Inl (Wrap ''file info'' NotExist)
      | Some n \<Rightarrow> Inr (nodeSize n))"

subsection \<open>encryptFile on files\<close>

text \<open>
  The file-level part of \<open>encryptFile\<close> around the content-level function above: the
  input is opened, the output directory and file are created (truncating), and what the
  content-level function wrote is the content of the output file. Reading a directory
  fails at the first \<open>Read\<close>, after the nonce has been written.
\<close>

definition encryptFile_fs :: "env \<Rightarrow> filesystem \<Rightarrow> string \<Rightarrow> string \<Rightarrow> string \<Rightarrow> error option \<times> filesystem" where
  "encryptFile_fs env fs inputPath outputPath password =
     (case map_of fs inputPath of
        None \<Rightarrow> (Some (Wrap ''open input file'' NotExist), fs)
      | Some node \<Rightarrow>
          (case os_MkdirAll fs (filepath_Dir outputPath) 493 of
             Inl e \<Rightarrow> (Some (Wrap ''create directory'' e), fs)
           | Inr fs1 \<Rightarrow>
               (case os_Create fs1 outputPath of
                  Inl e \<Rightarrow> (Some (Wrap ''create output file'' e), fs1)
                | Inr fs2 \<Rightarrow>
                    (case node of
                       RegFile m d \<Rightarrow>
                         (case encryptFile (env_crypto env) (env_cancelled env) (env_random env) password d of
                            (e, out) \<Rightarrow> (e, file_Write fs2 outputPath out))
                     | DirNode m \<Rightarrow>
                         (case encryptFile (env_crypto env) (env_cancelled env) (env_random env) password [] of
                            (Some e, out) \<Rightarrow> (Some e, file_Write fs2 outputPath out)
                          | (None, out) \<Rightarrow>
                              (Some (Wrap ''read input file'' IOError), file_Write fs2 outputPath out))))))"

subsection \<open>performBackup\<close>

record world =
  w_svc :: service
  w_fs :: filesystem

text \<open>\<open>s.storage.Upload\<close> of a local file: only a regular file can be read.\<close>

definition uploadFile :: "faults \<Rightarrow> world \<Rightarrow> string \<Rightarrow> string \<Rightarrow> error option \<times> world" where
  "uploadFile F w localPath remotePath =
     (case map_of (w_fs w) localPath of
        Some (RegFile m d) \<Rightarrow>
          (case storage_Upload F (svc_storage (w_svc w)) d remotePath of
             (e, st) \<Rightarrow> (e, w\<lparr>w_svc := (w_svc w)\<lparr>svc_storage := st\<rparr>\<rparr>))
      | Some (DirNode m) \<Rightarrow> (Some IOError, w)
      | None \<Rightarrow> (Some NotExist, w))"

text \<open>
  The archiving block of \<open>performBackup\<close>. As in the source, \<open>backupPath\<close> is set to
  \<open>archivePath\<close> before the sizes are taken, so \<open>getDirectorySize\<close> is called on the
  archive file. Go's \<open>float64\<close> quotient by zero is an infinity or NaN; the quotient of
  reals by zero is 0.
\<close>

definition performBackup_archive :: "env \<Rightarrow> filesystem \<Rightarrow> string \<Rightarrow> BackupResult \<Rightarrow> (error + string \<times> BackupResult) \<times> filesystem" where
  "performBackup_archive env fs backupPath0 result =
     (let archivePath = backupPath0 @ ''.tar.gz'' in
      case createArchive env fs backupPath0 archivePath of
        (Some e, fs1) \<Rightarrow> (Inl (Wrap ''archiving'' e), fs1)
      | (None, fs1) \<Rightarrow>
          (let backupPath = archivePath;
               result1 =
                 (case getDirectorySize fs1 backupPath of
                    Inl e \<Rightarrow> result
                  | Inr originalSize \<Rightarrow>
                      (case getFileSize fs1 archivePath of
                         Inl e \<Rightarrow> result
                       | Inr compressedSize \<Rightarrow>
                           result\<lparr>res_CompressionRatio :=
                                     real_of_int originalSize / real_of_int compressedSize,
                                   res_CompressedSize := compressedSize\<rparr>))
           in (Inr (backupPath, result1), fs1)))"

text \<open>The encryption block.\<close>

definition performBackup_encrypt :: "env \<Rightarrow> filesystem \<Rightarrow> BackupPolicy \<Rightarrow> string \<Rightarrow> (error + string) \<times> filesystem" where
  "performBackup_encrypt env fs policy backupPath =
     (let encryptedPath = backupPath @ ''.enc'' in
      case encryptFile_fs env fs backupPath encryptedPath (pol_EncryptionPassword policy) of
        (Some e, fs1) \<Rightarrow> (Inl (Wrap ''encryption'' e), fs1)
      | (None, fs1) \<Rightarrow> (Inr encryptedPath, fs1))"

text \<open>
  Everything of \<open>performBackup\<close> between the creation of the temporary directory and
  the call of the retention engine: scan, copy, archive, encrypt, checksum, upload.
  The progress lines that \<open>copyFiles\<close> logs are left out of the log.
\<close>

definition pipelineSteps :: "faults \<Rightarrow> env \<Rightarrow> world \<Rightarrow> BackupPolicy \<Rightarrow> string \<Rightarrow> (error + BackupResult) \<times> world" where
  "pipelineSteps F env w policy tempDir =
     (let result0 = zeroResult\<lparr>res_Compressed := pol_ArchiveEnabled policy,
                               res_Encrypted := pol_EncryptionEnabled policy\<rparr> in
      case scanDirectory (env_cancelled env) (w_fs w) (pol_SourcePath policy) of
        Inl e \<Rightarrow> (Inl (Wrap ''scan directory'' e), w)
      | Inr (files, totalSize) \<Rightarrow>
      (let result1 = result0\<lparr>res_FilesProcessed := int (length files), res_TotalSize := totalSize\<rparr>;
           backupName = generateBackupName env policy;
           backupPath0 = filepath_Join tempDir backupName in
       case copyFiles env (w_fs w) (pol_SourcePath policy) backupPath0 files of
         (Some e, fs1) \<Rightarrow> (Inl (Wrap ''copy files'' e), w\<lparr>w_fs := fs1\<rparr>)
       | (None, fs1) \<Rightarrow>
       (case (if pol_ArchiveEnabled policy then performBackup_archive env fs1 backupPath0 result1
              else (Inr (backupPath0, result1), fs1)) of
          (Inl e, fs2) \<Rightarrow> (Inl e, w\<lparr>w_fs := fs2\<rparr>)
        | (Inr (backupPath1, result2), fs2) \<Rightarrow>
        (case (if pol_EncryptionEnabled policy then performBackup_encrypt env fs2 policy backupPath1
               else (Inr backupPath1, fs2)) of
           (Inl e, fs3) \<Rightarrow> (Inl e, w\<lparr>w_fs := fs3\<rparr>)
         | (Inr backupPath, fs3) \<Rightarrow>
         (case calculateChecksum env fs3 backupPath of
            Inl e \<Rightarrow> (Inl (Wrap ''checksum'' e), w\<lparr>w_fs := fs3\<rparr>)
          | Inr checksum \<Rightarrow>
          (let result3 = result2\<lparr>res_Checksum := checksum\<rparr>;
               remotePath = generateRemotePath policy backupName in
           case uploadFile F (w\<lparr>w_fs := fs3\<rparr>) backupPath remotePath of
             (Some e, w1) \<Rightarrow> (Inl (Wrap ''upload to storage'' e), w1)
           | (None, w1) \<Rightarrow> (Inr (result3\<lparr>res_BackupPath := remotePath\<rparr>), w1)))))))"

text \<open>
  \<open>performBackup\<close>: the temporary directory, the steps, then the retention engine,
  whose error is logged and dropped; the deferred \<open>os.RemoveAll(tempDir)\<close> runs on
  every return after the directory was made.
\<close>

definition performBackup :: "faults \<Rightarrow> env \<Rightarrow> world \<Rightarrow> BackupPolicy \<Rightarrow> (error + BackupResult) \<times> world" where
  "performBackup F env w policy =
     (case env_mkdirTemp env of
        Inl e \<Rightarrow> (Inl (Wrap ''create temporary directory'' e), w)
      | Inr tempDir \<Rightarrow>
          (let w0 = w\<lparr>w_fs := AList.update tempDir (DirNode 448) (w_fs w)\<rparr> in
           case pipelineSteps F env w0 policy tempDir of
             (Inl e, w1) \<Rightarrow> (Inl e, w1\<lparr>w_fs := os_RemoveAll (w_fs w1) tempDir\<rparr>)
           | (Inr result, w1) \<Rightarrow>
               (let svc2 = (case cleanupOldBackups F (w_svc w1) policy of
                              (Some e, s') \<Rightarrow> logLine LError ''cleanup of old backups failed'' s'
                            | (None, s') \<Rightarrow> s')
                in (Inr result, w1\<lparr>w_svc := svc2, w_fs := os_RemoveAll (w_fs w1) tempDir\<rparr>))))"

subsection \<open>ExecuteBackup\<close>

text \<open>The text of an error, for \<open>job.Error\<close>.\<close>

fun errorText :: "error \<Rightarrow> string" where
  "errorText DbError = ''database error''"
| "errorText (NotFound i) = ''policy '' @ i @ '' not found''"
| "errorText StorageFailure = ''storage failure''"
| "errorText NotExist = ''no such file or directory''"
| "errorText NotEmpty = ''directory not empty''"
| "errorText IOError = ''input/output error''"
| "errorText (UnsafePath n) = ''unsafe path in archive: '' @ n"
| "errorText AuthError = ''cipher: message authentication failed''"
| "errorText Cancelled = ''context canceled''"
| "errorText (Wrap msg e) = msg @ '': '' @ errorText e"

text \<open>
  \<open>ExecuteBackup\<close> returns the result or the error, the job as the caller sees it
  afterwards (it is passed by pointer) and the world. \<open>policy_fails\<close> stands for an
  error of the policy query.
\<close>

definition ExecuteBackup :: "faults \<Rightarrow> bool \<Rightarrow> env \<Rightarrow> world \<Rightarrow> BackupJob \<Rightarrow> (error + BackupResult) \<times> BackupJob \<times> world" where
  "ExecuteBackup F policy_fails env w job =
     (case getPolicy policy_fails (svc_db (w_svc w)) (job_PolicyID job) of
        Inl e \<Rightarrow> (Inl (Wrap ''get policy'' e), job, w)
      | Inr policy \<Rightarrow>
          (let w1 = w\<lparr>w_svc := logLine LInfo ''backup started'' (w_svc w)\<rparr>;
               job1 = job\<lparr>job_Status := JobStatusRunning, job_StartedAt := env_startedAt env\<rparr>
           in case performBackup F env w1 policy of
                (Inl e, w2) \<Rightarrow>
                  (Inl e,
                   job1\<lparr>job_Status := JobStatusFailed, job_Error := errorText e\<rparr>,
                   w2\<lparr>w_svc := logLine LError ''backup failed'' (w_svc w2)\<rparr>)
              | (Inr result, w2) \<Rightarrow>
                  (let completedAt = env_completedAt env;
                       job2 = job1\<lparr>job_Status := JobStatusCompleted,
                                   job_CompletedAt := Some completedAt\<rparr>;
                       result1 = result\<lparr>res_JobID := job_ID job, res_Duration := env_duration env\<rparr>
                   in (Inr result1, job2,
                       w2\<lparr>w_svc := logLine LInfo ''backup completed'' (w_svc w2)\<rparr>))))"

section \<open>Notions used in the statements\<close>

text \<open>
  The effect on the catalog of deleting the backups whose job ids are in \<open>D\<close>: their
  file and result rows are removed and their job rows are marked \<open>deleted\<close>.
  A backup is deletable under a fault record when neither the store's \<open>Delete\<close> on
  its path nor a call of its transaction fails.
\<close>

definition markDeleted :: "string set \<Rightarrow> catalog \<Rightarrow> catalog" where
  "markDeleted D db = db\<lparr>
     backup_files := filter (\<lambda>r. fr_job_id r \<notin> D) (backup_files db),
     backup_results := filter (\<lambda>r. rr_job_id r \<notin> D) (backup_results db),
     backup_jobs := map (\<lambda>j. if jr_id j \<in> D then j\<lparr>jr_status := ''deleted''\<rparr> else j) (backup_jobs db)\<rparr>"





text \<open>The world in which the steps of \<open>performBackup\<close> start, when \<open>ExecuteBackup\<close>
  has logged the start and \<open>os.MkdirTemp\<close> has made \<open>tempDir\<close>.\<close>

definition startWorld :: "world \<Rightarrow> string \<Rightarrow> world" where
  "startWorld w tempDir =
     w\<lparr>w_svc := logLine LInfo ''backup started'' (w_svc w),
       w_fs := AList.update tempDir (DirNode 448) (w_fs w)\<rparr>"

text \<open>A catalog \<open>db'\<close> that has no row that \<open>db\<close> does not have: the same job ids in
  the same order, result and file rows among the old ones, the same policies.\<close>

definition noInsert :: "catalog \<Rightarrow> catalog \<Rightarrow> bool" where
  "noInsert db db' =
     (map jr_id (backup_jobs db') = map jr_id (backup_jobs db) \<and>
      set (backup_results db') \<subseteq> set (backup_results db) \<and>
      set (backup_files db') \<subseteq> set (backup_files db) \<and>
      backup_policies db' = backup_policies db)"

text \<open>
  A proper name of a path element, and a cleaned list of elements: some \<open>..\<close> elements
  (none when the path is rooted) followed by names.
\<close>

definition isName :: "string \<Rightarrow> bool" where
  "isName e = (e \<noteq> [] \<and> e \<noteq> ''.'' \<and> e \<noteq> ''..'' \<and> CHR ''/'' \<notin> set e)"

definition cleanList :: "bool \<Rightarrow> string list \<Rightarrow> bool" where
  "cleanList rooted L =
     (\<exists>k names. L = replicate k ''..'' @ names \<and> list_all isName names \<and> (rooted \<longrightarrow> k = 0))"

section \<open>Example inputs\<close>

text \<open>Concrete catalogs on which the theorems below are instantiated.\<close>

definition ex_policy_row :: policy_row where
  "ex_policy_row = \<lparr>pr_id = ''p1'', pr_name = ''docs'', pr_source_path = ''/home/u/docs'',
     pr_destination_path = ''/backups'', pr_schedule_cron = [], pr_retention_count = 1,
     pr_archive_enabled = True, pr_encryption_enabled = True,
     pr_encryption_password = ''hunter2'', pr_created_at = 5, pr_updated_at = 5\<rparr>"

definition ex_job_row :: "string \<Rightarrow> string \<Rightarrow> string \<Rightarrow> timestamp \<Rightarrow> job_row" where
  "ex_job_row jid pid path t = \<lparr>jr_id = jid, jr_policy_id = pid, jr_status = ''completed'',
     jr_started_at = t, jr_completed_at = Some (t + 1), jr_error = [],
     jr_files_processed = 1, jr_total_size = 10, jr_backup_path = path, jr_created_at = t\<rparr>"

definition ex_result_row :: "string \<Rightarrow> string \<Rightarrow> result_row" where
  "ex_result_row jid path = \<lparr>rr_id = ''result_'' @ jid, rr_job_id = jid, rr_backup_path = path,
     rr_files_processed = 1, rr_total_size = 10, rr_compressed_size = 4,
     rr_compression_ratio = 1, rr_encrypted = False, rr_compressed = True,
     rr_checksum = ''00'', rr_duration_seconds = 1, rr_created_at = 0\<rparr>"

definition ex_file_row :: "string \<Rightarrow> string \<Rightarrow> file_row" where
  "ex_file_row fid jid = \<lparr>fr_id = fid, fr_job_id = jid, fr_file_path = ''/home/u/docs/a'',
     fr_relative_path = ''a'', fr_file_size = 10, fr_checksum = ''00'', fr_processed = True,
     fr_created_at = 0\<rparr>"

definition ex_catalog :: catalog where
  "ex_catalog = \<lparr>
     backup_policies = [ex_policy_row, ex_policy_row\<lparr>pr_id := ''p2''\<rparr>],
     backup_jobs = [ex_job_row ''j1'' ''p1'' ''/backups/b1'' 10,
                    ex_job_row ''j2'' ''p1'' ''/backups/b2'' 20,
                    ex_job_row ''j3'' ''p2'' ''/backups/b3'' 30],
     backup_results = [ex_result_row ''j1'' ''/backups/b1'', ex_result_row ''j2'' ''/backups/b2'',
                       ex_result_row ''j3'' ''/backups/b3''],
     backup_files = [ex_file_row ''f1'' ''j1'', ex_file_row ''f2'' ''j2'', ex_file_row ''f3'' ''j3'']\<rparr>"




definition no_faults :: faults where
  "no_faults = \<lparr>policies_query_fails = False, history_query_fails = False,
     exists_fails = (\<lambda>p. False), delete_fails = (\<lambda>p. False), upload_fails = False,
     tx_fault = (\<lambda>i. None)\<rparr>"



text \<open>
  A stand-in for the primitives, on which the assumptions about them hold: the key is
  the padded password, the tag is the first 16 bytes of the key. It is not a cipher;
  it shows that the assumptions can be met together.
\<close>

definition toy_tag :: "bytes \<Rightarrow> bytes" where
  "toy_tag k = take 16 (k @ replicate 16 0)"

definition toy_crypto :: crypto where
  "toy_crypto = \<lparr>
     pbkdf2_Key = (\<lambda>pw salt iter n. take n (pw @ replicate n 0)),
     gcm_Seal = (\<lambda>k n p. p @ toy_tag k),
     gcm_Open = (\<lambda>k n c. if 16 \<le> length c \<and> drop (length c - 16) c = toy_tag k
                           then Some (take (length c - 16) c) else None)\<rparr>"

definition ex_random :: bytes where
  "ex_random = [7, 7, 7, 7, 7, 7, 7, 7, 255, 255, 255, 255]"

definition ex_evil_entry :: tar_item where
  "ex_evil_entry = Entry \<lparr>hdr_Name = ''../evil'', hdr_Typeflag = TypeReg, hdr_Mode = 420\<rparr> [1]"

definition ex_restore_fs :: filesystem where
  "ex_restore_fs = [(''/restore'', DirNode 493), (''/restore/f'', RegFile 384 [9, 9, 9, 9, 9])]"

definition ex_short_entry :: tar_item where
  "ex_short_entry = Entry \<lparr>hdr_Name = ''f'', hdr_Typeflag = TypeReg, hdr_Mode = 420\<rparr> [1, 2]"

text \<open>A run of the pipeline: one policy, no job yet, a source tree with one file of 64
  bytes, and an encoder that gives an archive of 32 bytes.\<close>

definition ex_env :: env where
  "ex_env = \<lparr>env_cancelled = False, env_mkdirTemp = Inr ''/tmp/backup-1'',
     env_timestamp = ''20240101-000000'', env_startedAt = 100, env_completedAt = 105,
     env_duration = 5,
     env_Rel = (\<lambda>base targ. Inr (drop (length base + 1) targ)),
     env_targz = (\<lambda>base entries. replicate 32 1),
     env_random = ex_random, env_crypto = toy_crypto,
     env_sha256hex = (\<lambda>d. ''0a0b'')\<rparr>"

definition ex_run_catalog :: catalog where
  "ex_run_catalog = \<lparr>backup_policies = [ex_policy_row\<lparr>pr_encryption_enabled := False\<rparr>],
     backup_jobs = [], backup_results = [], backup_files = []\<rparr>"

definition ex_run_fs :: filesystem where
  "ex_run_fs = [(''/home'', DirNode 493), (''/home/u'', DirNode 493),
     (''/home/u/docs'', DirNode 493), (''/home/u/docs/a'', RegFile 420 (replicate 64 0)),
     (''/tmp'', DirNode 511)]"

definition ex_world :: world where
  "ex_world = \<lparr>w_svc = \<lparr>svc_db = ex_run_catalog,
                           svc_storage = \<lparr>objects = Map.empty, absent_delete_fails = True\<rparr>,
                           svc_log = []\<rparr>,
                w_fs = ex_run_fs\<rparr>"

text \<open>The job as \<open>CreateBackupJob\<close> makes it: id, policy id and the status \<open>pending\<close>.\<close>

definition ex_new_job :: BackupJob where
  "ex_new_job = \<lparr>job_ID = ''j9'', job_PolicyID = ''p1'', job_Status = JobStatusPending,
     job_StartedAt = 0, job_CompletedAt = None, job_Error = [], job_FilesProcessed = 0,
     job_TotalSize = 0, job_BackupPath = [], job_CreatedAt = 0\<rparr>"

definition ex_run_policy :: BackupPolicy where
  "ex_run_policy = scanPolicy (ex_policy_row\<lparr>pr_encryption_enabled := False\<rparr>)"

definition ex_run_result :: BackupResult where
  "ex_run_result = \<lparr>res_JobID = [], res_BackupPath = ''/backups/docs-20240101-000000'',
     res_FilesProcessed = 1, res_TotalSize = 64, res_CompressedSize = 32, res_Duration = 0,
     res_Compressed = True, res_Encrypted = False, res_CompressionRatio = 1,
     res_Checksum = ''0a0b''\<rparr>"

section \<open>Properties of the catalog\<close>

lemma set_order_desc [simp]: "set (order_desc f xs) = set xs"
  by (simp add: order_desc_def)

lemma scanPolicyNoPassword_password [simp]:
  "pol_EncryptionPassword (scanPolicyNoPassword r) = []"
  by (simp add: scanPolicyNoPassword_def zeroPolicy_def)

text \<open>
  C10. Every policy returned by \<open>getAllPolicies\<close> has an empty \<open>EncryptionPassword\<close>
  field: the query does not select the \<open>encryption_password\<close> column, so the field
  keeps the zero value whatever passphrase the catalog stores. \<open>applyRetentionPolicies\<close>
  runs the retention engine on exactly the policies of that list.
\<close>

theorem getAllPolicies_no_password:
  assumes "getAllPolicies query_fails db = Inr ps"
  shows "(\<forall>p \<in> set ps. pol_EncryptionPassword p = []) \<and>
         (\<forall>F s. policies_query_fails F = query_fails \<and> svc_db s = db \<longrightarrow>
            applyRetentionPolicies F s =
              (None, logLine LInfo ''retention policies applied''
                 (retentionLoop F (logLine LInfo ''applying retention policies'' s) ps)))"
proof -
  from assms have "ps = map scanPolicyNoPassword (order_desc pr_created_at (backup_policies db))"
    by (simp add: getAllPolicies_def split: if_splits)
  then have "\<forall>p \<in> set ps. pol_EncryptionPassword p = []" by auto
  moreover have "applyRetentionPolicies F s =
      (None, logLine LInfo ''retention policies applied''
         (retentionLoop F (logLine LInfo ''applying retention policies'' s) ps))"
    if "policies_query_fails F = query_fails \<and> svc_db s = db" for F s
    using that assms by (simp add: applyRetentionPolicies_def Let_def)
  ultimately show ?thesis by blast
qed

theorem getAllPolicies_no_password_witness:
  "getAllPolicies False ex_catalog =
     Inr [scanPolicyNoPassword ex_policy_row, scanPolicyNoPassword (ex_policy_row\<lparr>pr_id := ''p2''\<rparr>)] \<and>
   map pr_encryption_password (backup_policies ex_catalog) = [''hunter2'', ''hunter2''] \<and>
   map pol_EncryptionPassword
     [scanPolicyNoPassword ex_policy_row, scanPolicyNoPassword (ex_policy_row\<lparr>pr_id := ''p2''\<rparr>)]
     = [[], []]"
proof -
  have g: "getAllPolicies False ex_catalog =
     Inr [scanPolicyNoPassword ex_policy_row, scanPolicyNoPassword (ex_policy_row\<lparr>pr_id := ''p2''\<rparr>)]"
    by (simp add: getAllPolicies_def ex_catalog_def ex_policy_row_def order_desc_def)
  have p: "map pr_encryption_password (backup_policies ex_catalog) = [''hunter2'', ''hunter2'']"
    by (simp add: ex_catalog_def ex_policy_row_def)
  from getAllPolicies_no_password [OF g] have
    "\<forall>p \<in> set [scanPolicyNoPassword ex_policy_row,
        scanPolicyNoPassword (ex_policy_row\<lparr>pr_id := ''p2''\<rparr>)]. pol_EncryptionPassword p = []"
    by blast
  then have "map pol_EncryptionPassword
     [scanPolicyNoPassword ex_policy_row, scanPolicyNoPassword (ex_policy_row\<lparr>pr_id := ''p2''\<rparr>)]
     = [[], []]" by simp
  with g p show ?thesis by blast
qed

lemma deletePolicy_cases:
  "deletePolicy fault db pid =
     (if fault \<in> Some ` {0..5} then (Some (Wrap (case the fault of 0 \<Rightarrow> ''begin transaction''
          | Suc 0 \<Rightarrow> ''delete backup files'' | Suc (Suc 0) \<Rightarrow> ''delete backup results''
          | Suc (Suc (Suc 0)) \<Rightarrow> ''delete backup jobs''
          | Suc (Suc (Suc (Suc 0))) \<Rightarrow> ''delete policy'' | _ \<Rightarrow> ''commit'') DbError), db)
      else (None, \<lparr>
        backup_policies = filter (\<lambda>p. pr_id p \<noteq> pid) (backup_policies db),
        backup_jobs = filter (\<lambda>j. jr_policy_id j \<noteq> pid) (backup_jobs db),
        backup_results = filter (\<lambda>r. rr_job_id r \<notin> set (jobIdsOfPolicy db pid)) (backup_results db),
        backup_files = filter (\<lambda>r. fr_job_id r \<notin> set (jobIdsOfPolicy db pid)) (backup_files db)\<rparr>))"
proof (cases "fault \<in> Some ` {0..5}")
  case True
  then obtain k where k: "fault = Some k" "k \<le> 5" by auto
  then have "k = 0 \<or> k = 1 \<or> k = 2 \<or> k = 3 \<or> k = 4 \<or> k = 5" by arith
  with k show ?thesis
    by (auto simp: deletePolicy_def Let_def numeral_eq_Suc)
next
  case False
  then have "fault \<noteq> Some 0" "fault \<noteq> Some 1" "fault \<noteq> Some 2" "fault \<noteq> Some 3"
    "fault \<noteq> Some 4" "fault \<noteq> Some 5" by auto
  with False show ?thesis
    by (simp add: deletePolicy_def Let_def jobIdsOfPolicy_def)
qed

text \<open>
  C5. \<open>deletePolicy\<close> is atomic and cascades. Whichever of its six database calls
  fails, the call reports an error and the catalog is unchanged. When none fails, the
  call succeeds and afterwards no job row carries the policy id, no result row and no
  file row refers to a job that belonged to the policy, the policy row is gone, and the
  rows of every other policy are exactly the ones that were there before.
\<close>

theorem deletePolicy_atomic_cascade:
  "(fst (deletePolicy fault db pid) \<noteq> None) = (fault \<in> Some ` {0..5}) \<and>
   (fst (deletePolicy fault db pid) \<noteq> None \<longrightarrow> snd (deletePolicy fault db pid) = db) \<and>
   (fst (deletePolicy fault db pid) = None \<longrightarrow>
      (\<forall>j \<in> set (backup_jobs (snd (deletePolicy fault db pid))). jr_policy_id j \<noteq> pid) \<and>
      (\<forall>r \<in> set (backup_results (snd (deletePolicy fault db pid))).
          rr_job_id r \<notin> set (jobIdsOfPolicy db pid)) \<and>
      (\<forall>f \<in> set (backup_files (snd (deletePolicy fault db pid))).
          fr_job_id f \<notin> set (jobIdsOfPolicy db pid)) \<and>
      (\<forall>p \<in> set (backup_policies (snd (deletePolicy fault db pid))). pr_id p \<noteq> pid) \<and>
      backup_jobs (snd (deletePolicy fault db pid)) =
        filter (\<lambda>j. jr_policy_id j \<noteq> pid) (backup_jobs db) \<and>
      backup_results (snd (deletePolicy fault db pid)) =
        filter (\<lambda>r. rr_job_id r \<notin> set (jobIdsOfPolicy db pid)) (backup_results db) \<and>
      backup_files (snd (deletePolicy fault db pid)) =
        filter (\<lambda>f. fr_job_id f \<notin> set (jobIdsOfPolicy db pid)) (backup_files db) \<and>
      backup_policies (snd (deletePolicy fault db pid)) =
        filter (\<lambda>p. pr_id p \<noteq> pid) (backup_policies db))"
  by (simp add: deletePolicy_cases)


theorem deletePolicy_atomic_cascade_witness:
  "fst (deletePolicy (Some 3) ex_catalog ''p1'') \<noteq> None \<and>
   snd (deletePolicy (Some 3) ex_catalog ''p1'') = ex_catalog \<and>
   fst (deletePolicy None ex_catalog ''p1'') = None \<and>
   map jr_id (backup_jobs (snd (deletePolicy None ex_catalog ''p1''))) = [''j3''] \<and>
   map rr_job_id (backup_results (snd (deletePolicy None ex_catalog ''p1''))) = [''j3''] \<and>
   map fr_job_id (backup_files (snd (deletePolicy None ex_catalog ''p1''))) = [''j3''] \<and>
   map pr_id (backup_policies (snd (deletePolicy None ex_catalog ''p1''))) = [''p2'']"
proof -
  have f: "fst (deletePolicy (Some 3) ex_catalog ''p1'') \<noteq> None"
    by (simp add: deletePolicy_def Let_def)
  have ok: "fst (deletePolicy None ex_catalog ''p1'') = None"
    by (simp add: deletePolicy_def Let_def)
  have ids: "jobIdsOfPolicy ex_catalog ''p1'' = [''j1'', ''j2'']"
    by (simp add: jobIdsOfPolicy_def ex_catalog_def ex_job_row_def)
  note t1 = deletePolicy_atomic_cascade [of "Some 3" ex_catalog "''p1''"]
  note t2 = deletePolicy_atomic_cascade [of None ex_catalog "''p1''"]
  from t1 f have r: "snd (deletePolicy (Some 3) ex_catalog ''p1'') = ex_catalog"
    by blast
  from t2 ok have
    j: "backup_jobs (snd (deletePolicy None ex_catalog ''p1'')) =
        filter (\<lambda>j. jr_policy_id j \<noteq> ''p1'') (backup_jobs ex_catalog)" and
    r': "backup_results (snd (deletePolicy None ex_catalog ''p1'')) =
        filter (\<lambda>r. rr_job_id r \<notin> set (jobIdsOfPolicy ex_catalog ''p1'')) (backup_results ex_catalog)" and
    f': "backup_files (snd (deletePolicy None ex_catalog ''p1'')) =
        filter (\<lambda>f. fr_job_id f \<notin> set (jobIdsOfPolicy ex_catalog ''p1'')) (backup_files ex_catalog)" and
    p: "backup_policies (snd (deletePolicy None ex_catalog ''p1'')) =
        filter (\<lambda>p. pr_id p \<noteq> ''p1'') (backup_policies ex_catalog)"
    by blast+
  have "map jr_id (backup_jobs (snd (deletePolicy None ex_catalog ''p1''))) = [''j3'']"
    unfolding j by (simp add: ex_catalog_def ex_job_row_def)
  moreover have "map rr_job_id (backup_results (snd (deletePolicy None ex_catalog ''p1''))) = [''j3'']"
    unfolding r' ids by (simp add: ex_catalog_def ex_result_row_def)
  moreover have "map fr_job_id (backup_files (snd (deletePolicy None ex_catalog ''p1''))) = [''j3'']"
    unfolding f' ids by (simp add: ex_catalog_def ex_file_row_def)
  moreover have "map pr_id (backup_policies (snd (deletePolicy None ex_catalog ''p1''))) = [''p2'']"
    unfolding p by (simp add: ex_catalog_def ex_policy_row_def)
  ultimately show ?thesis using f ok r by blast
qed

section \<open>Properties of the retention engine\<close>

lemma markDeleted_empty [simp]: "markDeleted {} db = db"
  by (simp add: markDeleted_def)


lemma deleteBackupTx_cases:
  "deleteBackupTx fault db i =
     (if fault \<in> Some ` {0..4} then (fst (deleteBackupTx fault db i), db)
      else (None, markDeleted {i} db))"
proof (cases "fault \<in> Some ` {0..4}")
  case True
  then obtain k where k: "fault = Some k" "k \<le> 4" by auto
  then have "k = 0 \<or> k = 1 \<or> k = 2 \<or> k = 3 \<or> k = 4" by arith
  with k show ?thesis
    by (auto simp: deleteBackupTx_def Let_def)
next
  case False
  then have "fault \<noteq> Some 0" "fault \<noteq> Some 1" "fault \<noteq> Some 2" "fault \<noteq> Some 3"
    "fault \<noteq> Some 4" by auto
  with False show ?thesis
    by (simp add: deleteBackupTx_def Let_def markDeleted_def)
qed




lemma logLine_simps [simp]:
  "svc_db (logLine lv m s) = svc_db s"
  "svc_storage (logLine lv m s) = svc_storage s"
  by (simp_all add: logLine_def)

lemma deleteLoop_step:
  "deleteLoop F s (b # rest) =
     deleteLoop F (logLine (if fst (deleteBackup F s b) = None then LInfo else LWarn)
        (if fst (deleteBackup F s b) = None then ''backup deleted'' else ''backup deletion failed'')
        (snd (deleteBackup F s b))) rest"
  by (simp split: prod.splits option.splits)








lemma length_sortNewestFirst [simp]: "length (sortNewestFirst bs) = length bs"
  by (simp add: sortNewestFirst_def)











lemma deleteBackup_flag [simp]:
  "absent_delete_fails (svc_storage (snd (deleteBackup F s b))) = absent_delete_fails (svc_storage s)"
  by (auto simp: deleteBackup_def storage_Delete_def split: prod.splits option.splits)

lemma deleteLoop_flag [simp]:
  "absent_delete_fails (svc_storage (deleteLoop F s ds)) = absent_delete_fails (svc_storage s)"
proof (induction ds arbitrary: s)
  case Nil
  then show ?case by simp
next
  case (Cons b rest)
  show ?case unfolding deleteLoop_step Cons.IH by simp
qed











section \<open>Properties of the storage backends\<close>





section \<open>Properties of the encryption codec\<close>

lemma encryptLoop_Nil: "encryptLoop C False key nonce [] out = (None, out)"
  by (subst encryptLoop.simps) simp

lemma encryptLoop_step:
  "rest \<noteq> [] \<Longrightarrow>
   encryptLoop C False key nonce rest out =
     encryptLoop C False key (incrementNonce nonce) (drop blockSize rest)
       (out @ gcm_Seal C key nonce (take blockSize rest))"
  by (subst encryptLoop.simps) (simp add: Let_def)

lemma encryptLoop_cancelled: "encryptLoop C True key nonce rest out = (Some Cancelled, out)"
  by (subst encryptLoop.simps) simp

lemma decryptLoop_Nil: "decryptLoop C False key nonce [] out = (None, out)"
  by (subst decryptLoop.simps) simp

lemma decryptLoop_step:
  "rest \<noteq> [] \<Longrightarrow>
   decryptLoop C False key nonce rest out =
     (case gcm_Open C key nonce (take (blockSize + gcm_Overhead) rest) of
        None \<Rightarrow> (Some (Wrap ''decrypt block'' AuthError), out)
      | Some plaintext \<Rightarrow>
          decryptLoop C False key (incrementNonce nonce)
            (drop (blockSize + gcm_Overhead) rest) (out @ plaintext))"
  by (subst decryptLoop.simps) simp

lemma decryptLoop_cancelled: "decryptLoop C True key nonce rest out = (Some Cancelled, out)"
  by (subst decryptLoop.simps) simp

lemma encryptLoop_roundtrip:
  "crypto_correct C \<Longrightarrow> \<not> cancelled \<Longrightarrow>
   encryptLoop C cancelled key nonce rest out = (e, ct) \<Longrightarrow>
   e = None \<and> (\<exists>body. ct = out @ body \<and>
      (rest \<noteq> [] \<longrightarrow> body \<noteq> [] \<and>
         take (blockSize + gcm_Overhead) body = gcm_Seal C key nonce (take blockSize rest)) \<and>
      (\<forall>acc. decryptLoop C False key nonce body acc = (None, acc @ rest)))"
proof (induction C cancelled key nonce rest out arbitrary: e ct rule: encryptLoop.induct)
  case (1 C cancelled key nonce rest out)
  note C = \<open>crypto_correct C\<close> and nc = \<open>\<not> cancelled\<close>
  from nc have cf: "cancelled = False" by simp
  show ?case
  proof (cases "rest = []")
    case True
    with "1.prems" have "e = None" "ct = out"
      by (simp_all add: cf encryptLoop_Nil)
    moreover have "\<forall>acc. decryptLoop C False key nonce [] acc = (None, acc @ rest)"
      using True by (simp add: decryptLoop_Nil)
    ultimately show ?thesis using True by auto
  next
    case False
    let ?chunk = "take blockSize rest"
    let ?c = "gcm_Seal C key nonce ?chunk"
    let ?rest' = "drop blockSize rest"
    have run: "encryptLoop C cancelled key (incrementNonce nonce) ?rest' (out @ ?c) = (e, ct)"
      using "1.prems"(3) False by (simp add: cf encryptLoop_step)
    from "1.IH" [OF nc False refl C nc run]
    obtain body' where e: "e = None" and ct: "ct = (out @ ?c) @ body'"
      and dec: "\<And>acc. decryptLoop C False key (incrementNonce nonce) body' acc = (None, acc @ ?rest')"
      by blast
    have len: "length ?c = length ?chunk + gcm_Overhead"
      and opn: "gcm_Open C key nonce ?c = Some ?chunk"
      using C by (simp_all add: crypto_correct_def)
    have chunk_ne: "?chunk \<noteq> []" using False by (simp add: blockSize_def)
    have split: "take (blockSize + gcm_Overhead) (?c @ body') = ?c \<and>
                 drop (blockSize + gcm_Overhead) (?c @ body') = body'"
    proof (cases "blockSize \<le> length rest")
      case True
      then have "length ?c = blockSize + gcm_Overhead" using len by simp
      then show ?thesis by simp
    next
      case short: False
      then have "?rest' = []" by simp
      with run have "ct = out @ ?c"
        by (simp add: cf encryptLoop_Nil)
      with ct have "body' = []" by simp
      moreover have "length ?c \<le> blockSize + gcm_Overhead" using len by simp
      ultimately show ?thesis by simp
    qed
    have ne: "?c @ body' \<noteq> []" using len chunk_ne by (cases ?c) (auto simp: gcm_Overhead_def)
    have "\<forall>acc. decryptLoop C False key nonce (?c @ body') acc = (None, acc @ rest)"
    proof
      fix acc
      have "decryptLoop C False key nonce (?c @ body') acc =
            decryptLoop C False key (incrementNonce nonce) body' (acc @ ?chunk)"
        using split opn by (simp add: decryptLoop_step [OF ne])
      also have "\<dots> = (None, (acc @ ?chunk) @ ?rest')" by (rule dec)
      finally show "decryptLoop C False key nonce (?c @ body') acc = (None, acc @ rest)"
        by simp
    qed
    with e ct ne split show ?thesis by auto
  qed
qed

text \<open>
  C3 (as amended). With primitives that are correct and a context that is not
  cancelled, \<open>encryptFile\<close> succeeds and \<open>decryptFile\<close> with the same passphrase, or
  with any passphrase that derives the same key, recovers exactly the original bytes.
  The codec has no check of the passphrase of its own: what happens with another
  passphrase is what \<open>Open\<close> of the cipher says about the sealed blocks under the
  other key. For the empty input the output is the nonce alone, no block is opened,
  and decrypting succeeds with every passphrase, giving the empty output. For a
  non-empty input the first sealed block decides: when \<open>Open\<close> rejects it,
  \<open>decryptFile\<close> fails with the authentication error and has written nothing; when
  \<open>Open\<close> accepts it, what \<open>Open\<close> returned is written and decryption goes on with
  the next block.
\<close>

theorem encryptFile_decryptFile:
  assumes C: "crypto_correct C" and rnd: "gcm_NonceSize \<le> length random"
  shows "fst (encryptFile C False random pw input) = None \<and>
         decryptFile C False pw (snd (encryptFile C False random pw input)) = (None, input) \<and>
         (deriveKey C pw' = deriveKey C pw \<longrightarrow>
            decryptFile C False pw' (snd (encryptFile C False random pw input)) = (None, input)) \<and>
         (input = [] \<longrightarrow>
            snd (encryptFile C False random pw input) = take gcm_NonceSize random \<and>
            decryptFile C False pw' (snd (encryptFile C False random pw input)) = (None, [])) \<and>
         (input \<noteq> [] \<longrightarrow>
            decryptFile C False pw' (snd (encryptFile C False random pw input)) =
              (case gcm_Open C (deriveKey C pw') (take gcm_NonceSize random)
                      (gcm_Seal C (deriveKey C pw) (take gcm_NonceSize random)
                         (take blockSize input)) of
                 None \<Rightarrow> (Some (Wrap ''decrypt block'' AuthError), [])
               | Some plaintext \<Rightarrow>
                   decryptLoop C False (deriveKey C pw')
                     (incrementNonce (take gcm_NonceSize random))
                     (drop (gcm_NonceSize + (blockSize + gcm_Overhead))
                        (snd (encryptFile C False random pw input)))
                     plaintext))"
proof -
  let ?key = "deriveKey C pw" and ?nonce = "take gcm_NonceSize random"
  let ?ct = "snd (encryptFile C False random pw input)"
  have klen: "\<And>p. length (deriveKey C p) = 32"
    using C by (simp add: crypto_correct_def deriveKey_def)
  have nlen: "length ?nonce = gcm_NonceSize" using rnd by simp
  have enc: "encryptFile C False random pw input = encryptLoop C False ?key ?nonce input ?nonce"
    using rnd by (simp add: encryptFile_def klen Let_def)
  obtain e ct where r: "encryptLoop C False ?key ?nonce input ?nonce = (e, ct)"
    by (cases "encryptLoop C False ?key ?nonce input ?nonce")
  from encryptLoop_roundtrip [OF C _ r]
  obtain body where e: "e = None" and ct: "ct = ?nonce @ body"
    and first: "input \<noteq> [] \<longrightarrow> body \<noteq> [] \<and>
         take (blockSize + gcm_Overhead) body = gcm_Seal C ?key ?nonce (take blockSize input)"
    and dec: "\<And>acc. decryptLoop C False ?key ?nonce body acc = (None, acc @ input)"
    by auto
  have cte: "?ct = ct" by (simp add: enc r)
  have dfile: "\<And>p. decryptFile C False p ct = decryptLoop C False (deriveKey C p) ?nonce body []"
    using nlen by (simp add: decryptFile_def klen Let_def ct)
  have "fst (encryptFile C False random pw input) = None" by (simp add: enc r e)
  moreover have same: "decryptFile C False pw ?ct = (None, input)"
    by (simp add: cte dfile dec)
  moreover have "decryptFile C False pw' ?ct = (None, input)"
    if "deriveKey C pw' = deriveKey C pw"
    using that by (simp add: cte dfile dec)
  moreover have "?ct = ?nonce \<and> decryptFile C False pw' ?ct = (None, [])"
    if "input = []"
  proof -
    from r that have n: "ct = ?nonce" by (simp add: encryptLoop_Nil)
    with ct have "body = []" by simp
    then have "decryptFile C False pw' ct = (None, [])" by (simp add: dfile decryptLoop_Nil)
    with n show ?thesis unfolding cte by simp
  qed
  moreover have "decryptFile C False pw' ?ct =
      (case gcm_Open C (deriveKey C pw') ?nonce (gcm_Seal C ?key ?nonce (take blockSize input)) of
         None \<Rightarrow> (Some (Wrap ''decrypt block'' AuthError), [])
       | Some plaintext \<Rightarrow>
           decryptLoop C False (deriveKey C pw') (incrementNonce ?nonce)
             (drop (gcm_NonceSize + (blockSize + gcm_Overhead)) ?ct) plaintext)"
    if ne: "input \<noteq> []"
  proof -
    from first ne have b: "body \<noteq> []"
      and t: "take (blockSize + gcm_Overhead) body = gcm_Seal C ?key ?nonce (take blockSize input)"
      by simp_all
    have d: "drop (gcm_NonceSize + (blockSize + gcm_Overhead)) ct =
        drop (blockSize + gcm_Overhead) body"
      unfolding ct using nlen by (simp add: drop_append)
    show ?thesis
      unfolding cte dfile decryptLoop_step [OF b] t d
      by (simp split: option.splits)
  qed
  ultimately show ?thesis by blast
qed

lemma toy_crypto_correct: "crypto_correct toy_crypto"
  by (auto simp: crypto_correct_def toy_crypto_def toy_tag_def gcm_Overhead_def min_def)

lemma toy_keys:
  "deriveKey toy_crypto ''a'' = 97 # replicate 31 0"
  "deriveKey toy_crypto ''b'' = 98 # replicate 31 0"
  by (simp_all add: deriveKey_def toy_crypto_def bytesOf_def)

lemma toy_key_padded:
  "deriveKey toy_crypto (''a'' @ [CHR 0x00]) = deriveKey toy_crypto ''a''"
proof -
  have "replicate 31 (0 :: 8 word) = 0 # replicate 30 0" by (simp add: numeral_eq_Suc)
  then show ?thesis by (simp add: deriveKey_def toy_crypto_def bytesOf_def)
qed

lemma toy_open_other:
  "gcm_Open toy_crypto (deriveKey toy_crypto ''b'') n
     (gcm_Seal toy_crypto (deriveKey toy_crypto ''a'') n p) = None"
  unfolding toy_keys by (simp add: toy_crypto_def toy_tag_def)

theorem encryptFile_decryptFile_witness:
  "crypto_correct toy_crypto \<and> gcm_NonceSize \<le> length ex_random \<and>
   fst (encryptFile toy_crypto False ex_random ''a'' [1, 2, 3]) = None \<and>
   decryptFile toy_crypto False ''a'' (snd (encryptFile toy_crypto False ex_random ''a'' [1, 2, 3]))
     = (None, [1, 2, 3]) \<and>
   ''a'' @ [CHR 0x00] \<noteq> ''a'' \<and>
   deriveKey toy_crypto (''a'' @ [CHR 0x00]) = deriveKey toy_crypto ''a'' \<and>
   decryptFile toy_crypto False (''a'' @ [CHR 0x00])
     (snd (encryptFile toy_crypto False ex_random ''a'' [1, 2, 3])) = (None, [1, 2, 3]) \<and>
   decryptFile toy_crypto False ''b'' (snd (encryptFile toy_crypto False ex_random ''a'' [1, 2, 3]))
     = (Some (Wrap ''decrypt block'' AuthError), [])"
proof -
  have rnd: "gcm_NonceSize \<le> length ex_random" by (simp add: gcm_NonceSize_def ex_random_def)
  have ne: "[1, 2, 3] \<noteq> ([] :: bytes)" by simp
  note k = toy_key_padded
  have d: "''a'' @ [CHR 0x00] \<noteq> ''a''" by simp
  note t = encryptFile_decryptFile [OF toy_crypto_correct rnd, of "''a''" "[1, 2, 3]"]
  from t [of "''a''"] have r1: "fst (encryptFile toy_crypto False ex_random ''a'' [1, 2, 3]) = None"
    and r2: "decryptFile toy_crypto False ''a''
       (snd (encryptFile toy_crypto False ex_random ''a'' [1, 2, 3])) = (None, [1, 2, 3])"
    by blast+
  from t [of "''a'' @ [CHR 0x00]"] k have r3: "decryptFile toy_crypto False (''a'' @ [CHR 0x00])
     (snd (encryptFile toy_crypto False ex_random ''a'' [1, 2, 3])) = (None, [1, 2, 3])"
    by blast
  from t [of "''b''"] ne have "decryptFile toy_crypto False ''b''
      (snd (encryptFile toy_crypto False ex_random ''a'' [1, 2, 3])) =
      (case gcm_Open toy_crypto (deriveKey toy_crypto ''b'') (take gcm_NonceSize ex_random)
              (gcm_Seal toy_crypto (deriveKey toy_crypto ''a'') (take gcm_NonceSize ex_random)
                 (take blockSize [1, 2, 3])) of
         None \<Rightarrow> (Some (Wrap ''decrypt block'' AuthError), [])
       | Some plaintext \<Rightarrow>
           decryptLoop toy_crypto False (deriveKey toy_crypto ''b'')
             (incrementNonce (take gcm_NonceSize ex_random))
             (drop (gcm_NonceSize + (blockSize + gcm_Overhead))
                (snd (encryptFile toy_crypto False ex_random ''a'' [1, 2, 3])))
             plaintext)"
    by blast
  then have r4: "decryptFile toy_crypto False ''b''
      (snd (encryptFile toy_crypto False ex_random ''a'' [1, 2, 3])) =
      (Some (Wrap ''decrypt block'' AuthError), [])"
    unfolding toy_open_other by simp
  from toy_crypto_correct rnd r1 r2 d k r3 r4 show ?thesis by (intro conjI)
qed

text \<open>
  For the empty byte sequence a wrong passphrase goes unnoticed: its encryption is the nonce
  alone, and decrypting that with a different passphrase (one that derives a different
  key) succeeds; no authentication error is reported.
\<close>

theorem decryptFile_wrong_passphrase_counterexample:
  "deriveKey toy_crypto ''a'' \<noteq> deriveKey toy_crypto ''b'' \<and>
   encryptFile toy_crypto False ex_random ''a'' [] = (None, ex_random) \<and>
   decryptFile toy_crypto False ''b'' ex_random = (None, [])"
proof -
  have k: "length (deriveKey toy_crypto ''a'') = 32" "length (deriveKey toy_crypto ''b'') = 32"
    unfolding toy_keys by simp_all
  have n: "take gcm_NonceSize ex_random = ex_random" "drop gcm_NonceSize ex_random = []"
    "\<not> length ex_random < gcm_NonceSize"
    by (simp_all add: gcm_NonceSize_def ex_random_def)
  have "deriveKey toy_crypto ''a'' \<noteq> deriveKey toy_crypto ''b''"
    unfolding toy_keys by simp
  moreover have "encryptFile toy_crypto False ex_random ''a'' [] = (None, ex_random)"
    by (simp add: encryptFile_def Let_def k n encryptLoop_Nil)
  moreover have "decryptFile toy_crypto False ''b'' ex_random = (None, [])"
    by (simp add: decryptFile_def Let_def k n decryptLoop_Nil)
  ultimately show ?thesis by blast
qed

section \<open>Properties of cleaned paths\<close>

lemma splitSlash_nonempty [simp]: "splitSlash xs \<noteq> []"
  by (induction xs) (auto split: list.splits)

lemma splitSlash_no_slash: "e \<in> set (splitSlash xs) \<Longrightarrow> CHR ''/'' \<notin> set e"
proof (induction xs arbitrary: e)
  case Nil
  then show ?case by simp
next
  case (Cons c cs)
  obtain w ws where sp: "splitSlash cs = w # ws" by (cases "splitSlash cs") auto
  show ?case
  proof (cases "c = CHR ''/''")
    case True
    with Cons.prems have "e = [] \<or> e \<in> set (splitSlash cs)" by simp
    then show ?thesis using Cons.IH by auto
  next
    case False
    with Cons.prems sp have "e = c # w \<or> e \<in> set ws" by simp
    moreover have "CHR ''/'' \<notin> set w" using Cons.IH [of w] sp by simp
    moreover have "\<And>e. e \<in> set ws \<Longrightarrow> CHR ''/'' \<notin> set e" using Cons.IH sp by simp
    ultimately show ?thesis using False by auto
  qed
qed

lemma splitSlash_append_slash:
  "splitSlash (a @ CHR ''/'' # b) = splitSlash a @ splitSlash b"
proof (induction a)
  case Nil
  then show ?case by simp
next
  case (Cons c a)
  obtain w ws where sp: "splitSlash a = w # ws" by (cases "splitSlash a") auto
  show ?case using Cons.IH by (simp add: sp)
qed

lemma splitSlash_single: "CHR ''/'' \<notin> set e \<Longrightarrow> splitSlash e = [e]"
  by (induction e) (auto split: list.splits)

lemma splitSlash_joinSlash:
  "L \<noteq> [] \<Longrightarrow> \<forall>e \<in> set L. CHR ''/'' \<notin> set e \<Longrightarrow> splitSlash (joinSlash L) = L"
proof (induction L rule: joinSlash.induct)
  case 1
  then show ?case by simp
next
  case (2 x)
  then show ?case by (simp add: splitSlash_single)
next
  case (3 x y ys)
  then show ?case
    using splitSlash_append_slash [of x "joinSlash (y # ys)"]
    by (simp add: splitSlash_single)
qed

lemma isName_no_slash: "isName e \<Longrightarrow> CHR ''/'' \<notin> set e"
  by (simp add: isName_def)

lemma cleanList_elems:
  assumes "cleanList r L" "e \<in> set L"
  shows "e = ''..'' \<or> isName e"
proof -
  from assms(1) obtain k names where L: "L = replicate k ''..'' @ names"
    and n: "list_all isName names"
    unfolding cleanList_def by blast
  from assms(2) have "e \<in> set (replicate k ''..'') \<or> e \<in> set names"
    unfolding L by simp
  then show ?thesis
  proof
    assume "e \<in> set (replicate k ''..'')"
    then show ?thesis by (simp split: if_splits)
  next
    assume "e \<in> set names"
    with n show ?thesis by (simp add: list_all_iff)
  qed
qed

lemma cleanList_no_slash:
  assumes "cleanList r L" "e \<in> set L"
  shows "CHR ''/'' \<notin> set e"
  using cleanList_elems [OF assms] by (auto simp: isName_def)

lemma cleanList_nonempty_elems:
  assumes "cleanList r L" "e \<in> set L"
  shows "e \<noteq> []" "e \<noteq> ''.''"
  using cleanList_elems [OF assms] by (auto simp: isName_def)

text \<open>The stack of \<open>filepath.Clean\<close> is a cleaned list at every step.\<close>

lemma cleanStep_cleanList:
  assumes "cleanList r (rev st)" "CHR ''/'' \<notin> set c"
  shows "cleanList r (rev (cleanStep r st c))"
proof -
  from assms(1) obtain k names where st: "rev st = replicate k ''..'' @ names"
    and n: "list_all isName names" and r: "r \<longrightarrow> k = 0"
    by (auto simp: cleanList_def)
  consider (skip) "c = [] \<or> c = ''.''" | (up) "c = ''..''" | (name) "isName c"
    using assms(2) by (auto simp: isName_def)
  then show ?thesis
  proof cases
    case skip
    then show ?thesis using assms(1) by (auto simp: cleanStep_def)
  next
    case name
    then have "c \<noteq> []" "c \<noteq> ''.''" "c \<noteq> ''..''" by (auto simp: isName_def)
    then have "rev (cleanStep r st c) = replicate k ''..'' @ (names @ [c])"
      using st by (simp add: cleanStep_def)
    with n r name show ?thesis
      unfolding cleanList_def by (intro exI [of _ k] exI [of _ "names @ [c]"]) simp
  next
    case up
    show ?thesis
    proof (cases names rule: rev_cases)
      case Nil
      then have st': "st = replicate k ''..''" using st
        by (metis append_Nil2 rev_replicate rev_rev_ident)
      show ?thesis
      proof (cases k)
        case 0
        show ?thesis
        proof (cases r)
          case True
          with 0 st' up show ?thesis by (simp add: cleanStep_def cleanList_def)
        next
          case False
          with 0 st' up have "rev (cleanStep r st c) = replicate (Suc 0) ''..'' @ []"
            by (simp add: cleanStep_def)
          with False show ?thesis
            unfolding cleanList_def by (intro exI [of _ "Suc 0"] exI [of _ "[]"]) simp
        qed
      next
        case (Suc j)
        with r have nr: "\<not> r" by simp
        from Suc st' up have "rev (cleanStep r st c) = replicate (Suc k) ''..'' @ []"
          by (simp add: cleanStep_def replicate_append_same)
        with nr show ?thesis
          unfolding cleanList_def by (intro exI [of _ "Suc k"] exI [of _ "[]"]) simp
      qed
    next
      case (snoc names' t)
      then have "rev st = (replicate k ''..'' @ names') @ [t]" using st by simp
      then have "st = t # rev (replicate k ''..'' @ names')"
        by (metis rev.simps(2) rev_rev_ident rev_swap)
      moreover from n snoc have "t \<noteq> ''..''" by (auto simp: isName_def)
      ultimately have "rev (cleanStep r st c) = replicate k ''..'' @ names'"
        using up by (simp add: cleanStep_def)
      with n snoc r show ?thesis
        unfolding cleanList_def by (intro exI [of _ k] exI [of _ names']) simp
    qed
  qed
qed

lemma foldl_cleanStep_cleanList:
  "cleanList r (rev st) \<Longrightarrow> \<forall>c \<in> set cs. CHR ''/'' \<notin> set c \<Longrightarrow>
   cleanList r (rev (foldl (cleanStep r) st cs))"
  by (induction cs arbitrary: st) (auto intro: cleanStep_cleanList)

lemma cleanList_Nil [simp]: "cleanList r []"
  by (simp add: cleanList_def)

lemma cleanElems_cleanList: "cleanList (isRooted x) (cleanElems x)"
  unfolding cleanElems_def
  by (rule foldl_cleanStep_cleanList) (auto dest: splitSlash_no_slash)

lemma foldl_cleanStep_names:
  "list_all isName names \<Longrightarrow> foldl (cleanStep r) st names = rev names @ st"
  by (induction names arbitrary: st) (auto simp: cleanStep_def isName_def)

lemma foldl_cleanStep_dotdots:
  "foldl (cleanStep False) (replicate j ''..'') (replicate k ''..'') = replicate (j + k) ''..''"
proof (induction k arbitrary: j)
  case 0
  then show ?case by simp
next
  case (Suc k)
  have "cleanStep False (replicate j ''..'') ''..'' = replicate (Suc j) ''..''"
    by (cases j) (simp_all add: cleanStep_def)
  then show ?case using Suc [of "Suc j"] by simp
qed

lemma foldl_cleanStep_cleanList_id:
  assumes "cleanList r L"
  shows "rev (foldl (cleanStep r) [] L) = L"
proof -
  from assms obtain k names where L: "L = replicate k ''..'' @ names"
    and n: "list_all isName names" and r: "r \<longrightarrow> k = 0"
    by (auto simp: cleanList_def)
  have "foldl (cleanStep r) [] (replicate k ''..'') = replicate k ''..''"
  proof (cases r)
    case True
    with r show ?thesis by simp
  next
    case False
    then show ?thesis using foldl_cleanStep_dotdots [of 0 k] by simp
  qed
  then show ?thesis by (simp add: L foldl_cleanStep_names [OF n])
qed

lemma joinSlash_hd:
  "L = e # rest \<Longrightarrow> e \<noteq> [] \<Longrightarrow> \<exists>t. joinSlash L = hd e # t"
  by (cases rest; cases e) auto

lemma cleanString_elems:
  assumes cl: "cleanList r L" and ne: "L \<noteq> []"
  defines "x \<equiv> (if r then ''/'' else []) @ joinSlash L"
  shows "isRooted x = r" and "cleanElems x = L"
proof -
  have ns: "\<forall>e \<in> set L. CHR ''/'' \<notin> set e" using cleanList_no_slash [OF cl] by blast
  obtain e rest where L: "L = e # rest" using ne by (cases L) auto
  have e: "e \<noteq> []" "CHR ''/'' \<notin> set e"
    using cleanList_nonempty_elems(1) [OF cl, of e] ns L by auto
  obtain t where t: "joinSlash L = hd e # t" using joinSlash_hd [OF L e(1)] by blast
  have hd: "hd e \<noteq> CHR ''/''" using e by (cases e) auto
  show root: "isRooted x = r"
    by (cases r) (simp_all add: x_def isRooted_def t hd)
  have sp: "splitSlash x = (if r then [[]] else []) @ L"
    by (cases r) (simp_all add: x_def splitSlash_joinSlash [OF ne ns])
  have "foldl (cleanStep r) [] (splitSlash x) = foldl (cleanStep r) [] L"
    by (cases r) (simp_all add: sp cleanStep_def)
  then show "cleanElems x = L"
    by (simp add: cleanElems_def root foldl_cleanStep_cleanList_id [OF cl])
qed

lemma Clean_form:
  "filepath_Clean x =
     (if cleanElems x = [] then (if isRooted x then ''/'' else ''.'')
      else (if isRooted x then ''/'' else []) @ joinSlash (cleanElems x))"
proof (cases "x = []")
  case True
  then show ?thesis by (simp add: filepath_Clean_def cleanElems_def isRooted_def cleanStep_def)
next
  case False
  show ?thesis
  proof (cases "cleanElems x = []")
    case True
    with False show ?thesis by (simp add: filepath_Clean_def)
  next
    case ne: False
    then obtain e rest where L: "cleanElems x = e # rest" by (cases "cleanElems x") auto
    have "e \<noteq> []"
      using cleanList_nonempty_elems(1) [OF cleanElems_cleanList, of e x] L by simp
    then have "joinSlash (cleanElems x) \<noteq> []" using joinSlash_hd [OF L] by auto
    with False ne show ?thesis by (simp add: filepath_Clean_def)
  qed
qed

lemma Clean_idem:
  "isRooted (filepath_Clean x) = isRooted x" "cleanElems (filepath_Clean x) = cleanElems x"
proof -
  have "isRooted (filepath_Clean x) = isRooted x \<and> cleanElems (filepath_Clean x) = cleanElems x"
  proof (cases "cleanElems x = []")
    case True
    then show ?thesis
      by (simp add: Clean_form isRooted_def cleanElems_def cleanStep_def)
  next
    case False
    then show ?thesis
      using cleanString_elems [OF cleanElems_cleanList False] by (simp add: Clean_form)
  qed
  then show "isRooted (filepath_Clean x) = isRooted x"
    "cleanElems (filepath_Clean x) = cleanElems x" by simp_all
qed

lemma splitSlash_Clean:
  "splitSlash (filepath_Clean x) =
     (if cleanElems x = [] then (if isRooted x then [[], []] else [''.''])
      else (if isRooted x then [[]] else []) @ cleanElems x)"
proof (cases "cleanElems x = []")
  case True
  then show ?thesis by (simp add: Clean_form)
next
  case False
  have ns: "\<forall>e \<in> set (cleanElems x). CHR ''/'' \<notin> set e"
    using cleanList_no_slash [OF cleanElems_cleanList] by blast
  show ?thesis
    using False by (simp add: Clean_form splitSlash_joinSlash [OF False ns])
qed

lemma Clean_nonempty: "filepath_Clean x \<noteq> []"
  by (simp add: filepath_Clean_def Let_def)

text \<open>
  When the zip-slip check passes and the cleaned destination root does not end in
  \<open>..\<close>, the resolved path lies under the root.
\<close>

lemma zip_slip_check_sound:
  assumes chk: "prefix (filepath_Clean d @ ''/'') (filepath_Join d n)"
    and last: "cleanElems d \<noteq> [] \<longrightarrow> last (cleanElems d) \<noteq> ''..''"
  shows "isDescendant d (filepath_Join d n)"
proof -
  let ?p = "filepath_Join d n"
  from chk obtain t where p: "?p = filepath_Clean d @ CHR ''/'' # t"
    by (auto simp: prefix_def)
  then have "?p \<noteq> []" by simp
  then obtain y where y: "?p = filepath_Clean y"
    by (auto simp: filepath_Join_def split: if_splits)
  let ?E = "cleanElems y" and ?D = "cleanElems d"
  let ?T = "splitSlash t"
  have clE: "cleanList (isRooted y) ?E" and clD: "cleanList (isRooted d) ?D"
    by (rule cleanElems_cleanList)+
  have sp: "splitSlash (filepath_Clean y) = splitSlash (filepath_Clean d) @ ?T"
    using p y splitSlash_append_slash [of "filepath_Clean d" t] by simp
  have T: "?T \<noteq> []" by simp
  have Ene: "?E \<noteq> []"
  proof
    assume "?E = []"
    then have "length (filepath_Clean y) = 1" by (simp add: Clean_form)
    moreover have "length (filepath_Clean d) \<ge> 1"
      using Clean_nonempty [of d] by (cases "filepath_Clean d") auto
    then have "length (filepath_Clean y) \<ge> 2"
      using p y by simp
    ultimately show False by simp
  qed
  have noE: "[] \<notin> set ?E" "''.'' \<notin> set ?E"
    using cleanList_nonempty_elems [OF clE] by blast+
  have noD: "[] \<notin> set ?D" using cleanList_nonempty_elems(1) [OF clD] by blast
  have Dne: "?D \<noteq> []"
  proof
    assume D: "?D = []"
    from sp Ene D have "(if isRooted y then [[]] else []) @ ?E =
        (if isRooted d then [[], []] else [''.'']) @ ?T"
      by (simp add: splitSlash_Clean)
    then show False
      using noE by (cases "isRooted y"; cases "isRooted d"; cases ?E) (auto simp: Cons_eq_append_conv)
  qed
  from sp Ene Dne have eq: "(if isRooted y then [[]] else []) @ ?E =
      (if isRooted d then [[]] else []) @ ?D @ ?T"
    by (simp add: splitSlash_Clean)
  have root: "isRooted y = isRooted d" and E: "?E = ?D @ ?T"
    using eq noE noD Dne Ene
    by (cases "isRooted y"; cases "isRooted d"; cases ?E; cases ?D; auto)+
  from clE obtain k names where Ek: "?E = replicate k ''..'' @ names"
    and names: "list_all isName names" by (auto simp: cleanList_def)
  have "k < length ?D"
  proof (rule ccontr)
    assume "\<not> k < length ?D"
    then have "length ?D \<le> k" by simp
    moreover have "?D = take (length ?D) ?E" using E by simp
    ultimately have "?D = replicate (length ?D) ''..''"
      using Ek by (simp add: min_def)
    then have "last ?D = ''..''" using Dne
      by (metis last_replicate length_0_conv)
    with last Dne show False by simp
  qed
  moreover have "?T = drop (length ?D) ?E" using E by simp
  ultimately have "?T = drop (length ?D - k) names" using Ek by simp
  then have "set ?T \<subseteq> set names" by (metis set_drop_subset)
  with names have noup: "''..'' \<notin> set ?T" by (auto simp: list_all_iff isName_def)
  have "isRooted d = isRooted ?p" by (simp add: y Clean_idem root)
  moreover have "strict_prefix ?D (cleanElems ?p)"
    using E T by (simp add: y Clean_idem strict_prefix_def prefix_def)
  moreover have "''..'' \<notin> set (drop (length ?D) (cleanElems ?p))"
    using E noup by (simp add: y Clean_idem)
  ultimately show ?thesis by (simp add: isDescendant_def)
qed

section \<open>Properties of archive extraction\<close>

lemma extractEntry_unsafe_rejected:
  assumes "\<not> cancelled"
    and "\<not> prefix (filepath_Clean destPath @ ''/'') (filepath_Join destPath (hdr_Name header))"
  shows "extractEntry cancelled fs destPath header data = Inl (UnsafePath (hdr_Name header))"
  using assms by (simp add: extractEntry_def)

lemma extractEntry_under_root:
  assumes "extractEntry cancelled fs destPath header data = Inr fs'"
    and "cleanElems destPath \<noteq> [] \<longrightarrow> last (cleanElems destPath) \<noteq> ''..''"
  shows "isDescendant destPath (filepath_Join destPath (hdr_Name header))"
proof -
  have "prefix (filepath_Clean destPath @ ''/'') (filepath_Join destPath (hdr_Name header))"
  proof (rule ccontr)
    assume "\<not> prefix (filepath_Clean destPath @ ''/'') (filepath_Join destPath (hdr_Name header))"
    then have "\<exists>e. extractEntry cancelled fs destPath header data = Inl e"
      by (simp add: extractEntry_def)
    with assms(1) show False by auto
  qed
  then show ?thesis using assms(2) by (rule zip_slip_check_sound)
qed


text \<open>
  C4. The zip-slip check compares cleaned path strings, and a destination root that
  cleans to \<open>..\<close> is a prefix of paths that climb further up. With the destination
  root \<open>..\<close> and an entry named \<open>../evil\<close>, the resolved path \<open>../../evil\<close> is not
  under the root, the check passes, extraction succeeds and the file is written there.
\<close>

theorem extractArchive_zip_slip_escape:
  "filepath_Join ''..'' ''../evil'' = ''../../evil'' \<and>
   \<not> isDescendant ''..'' ''../../evil'' \<and>
   extractArchive False [] (Inr [ex_evil_entry]) ''..'' =
     (None, [(''../../evil'', RegFile 420 [1])])"
  by code_simp

text \<open>
  What opening with \<open>O_CREATE|O_WRONLY\<close> and writing leaves at the path: the data
  alone in a new file with the given mode, and the data followed by the old tail, under
  the old mode, in a file that was there.
\<close>

lemma open_write_without_truncation:
  assumes "os_OpenFile fs p [O_CREATE, O_WRONLY] perm = Inr fs2"
  shows "map_of (file_Write fs2 p d) p =
           (case map_of fs p of
              None \<Rightarrow> Some (RegFile perm d)
            | Some (RegFile m old) \<Rightarrow> Some (RegFile m (d @ drop (length d) old))
            | Some (DirNode m) \<Rightarrow> None)"
proof (cases "map_of fs p")
  case None
  with assms have "fs2 = AList.update p (RegFile perm []) fs" by (simp add: os_OpenFile_def)
  then show ?thesis by (simp add: None file_Write_def update_conv')
next
  case (Some node)
  show ?thesis
  proof (cases node)
    case (RegFile m old)
    with assms Some have "fs2 = fs" by (simp add: os_OpenFile_def)
    then show ?thesis by (simp add: Some RegFile file_Write_def update_conv')
  next
    case (DirNode m)
    with assms Some show ?thesis by (simp add: os_OpenFile_def)
  qed
qed

text \<open>
  C8. The destination file is opened with \<open>O_CREATE|O_WRONLY\<close>, without \<open>O_TRUNC\<close>:
  extracting a two-byte entry over an existing five-byte file leaves the last three
  old bytes in place, and the file keeps its old mode.
\<close>

theorem extractArchive_no_truncate:
  "extractArchive False ex_restore_fs (Inr [ex_short_entry]) ''/restore'' =
     (None, [(''/restore'', DirNode 493), (''/restore/f'', RegFile 384 [1, 2, 9, 9, 9])])"
  by code_simp

section \<open>Properties of the pipeline\<close>

lemma noInsert_refl [simp]: "noInsert db db"
  by (simp add: noInsert_def)

lemma noInsert_trans: "noInsert a b \<Longrightarrow> noInsert b c \<Longrightarrow> noInsert a c"
  by (auto simp: noInsert_def)

lemma noInsert_markDeleted: "noInsert db (markDeleted D db)"
  by (auto simp: noInsert_def markDeleted_def comp_def)

lemma deleteBackupTx_noInsert: "noInsert db (snd (deleteBackupTx fault db i))"
  by (subst deleteBackupTx_cases) (simp add: noInsert_markDeleted)

lemma deleteBackup_noInsert: "noInsert (svc_db s) (svc_db (snd (deleteBackup F s b)))"
  using deleteBackupTx_noInsert [of "svc_db s" "tx_fault F (job_ID b)" "job_ID b"]
  by (auto simp: deleteBackup_def split: prod.splits option.splits)

lemma deleteLoop_noInsert: "noInsert (svc_db s) (svc_db (deleteLoop F s ds))"
proof (induction ds arbitrary: s)
  case Nil
  then show ?case by simp
next
  case (Cons b rest)
  show ?case
    unfolding deleteLoop_step
    by (rule noInsert_trans [OF deleteBackup_noInsert [of s F b]])
      (use Cons.IH [of "logLine _ _ (snd (deleteBackup F s b))"] in simp)
qed

lemma getBackupsForPolicy_db [simp]:
  "svc_db (snd (getBackupsForPolicy F s policy)) = svc_db s"
  by (simp add: getBackupsForPolicy_def split: sum.splits prod.splits)

lemma cleanupOldBackups_noInsert:
  "noInsert (svc_db s) (svc_db (snd (cleanupOldBackups F s policy)))"
proof -
  obtain r s1 where g: "getBackupsForPolicy F s policy = (r, s1)"
    by (cases "getBackupsForPolicy F s policy")
  then have s1: "svc_db s1 = svc_db s"
    using getBackupsForPolicy_db [of F s policy] by simp
  show ?thesis
    using deleteLoop_noInsert [of "logLine LInfo ''starting cleanup of old backups'' s1" F]
    by (cases r) (simp_all add: cleanupOldBackups_def g s1 Let_def)
qed

lemma uploadFile_db [simp]:
  "svc_db (w_svc (snd (uploadFile F w l r))) = svc_db (w_svc w)"
  by (simp add: uploadFile_def storage_Upload_def split: option.splits fsnode.splits prod.splits)

lemma pipelineSteps_db [simp]:
  "svc_db (w_svc (snd (pipelineSteps F env w policy tempDir))) = svc_db (w_svc w)"
proof (cases "scanDirectory (env_cancelled env) (w_fs w) (pol_SourcePath policy)")
  case (Inl e)
  then show ?thesis by (simp add: pipelineSteps_def)
next
  case (Inr ft)
  obtain files totalSize where ft: "ft = (files, totalSize)" by (cases ft)
  define name where "name = generateBackupName env policy"
  define bp0 where "bp0 = filepath_Join tempDir name"
  define result1 where "result1 = zeroResult\<lparr>res_Compressed := pol_ArchiveEnabled policy,
      res_Encrypted := pol_EncryptionEnabled policy,
      res_FilesProcessed := int (length files), res_TotalSize := totalSize\<rparr>"
  obtain e1 fs1 where c: "copyFiles env (w_fs w) (pol_SourcePath policy) bp0 files = (e1, fs1)"
    by (cases "copyFiles env (w_fs w) (pol_SourcePath policy) bp0 files")
  obtain ra fs2 where a: "(if pol_ArchiveEnabled policy
      then performBackup_archive env fs1 bp0 result1 else (Inr (bp0, result1), fs1)) = (ra, fs2)"
    by (cases "if pol_ArchiveEnabled policy
      then performBackup_archive env fs1 bp0 result1 else (Inr (bp0, result1), fs1)")
  have start: "pipelineSteps F env w policy tempDir =
    (case (e1, fs1) of
       (Some e, fs1) \<Rightarrow> (Inl (Wrap ''copy files'' e), w\<lparr>w_fs := fs1\<rparr>)
     | (None, fs1) \<Rightarrow>
       (case (ra, fs2) of
          (Inl e, fs2) \<Rightarrow> (Inl e, w\<lparr>w_fs := fs2\<rparr>)
        | (Inr (backupPath1, result2), fs2) \<Rightarrow>
        (case (if pol_EncryptionEnabled policy then performBackup_encrypt env fs2 policy backupPath1
               else (Inr backupPath1, fs2)) of
           (Inl e, fs3) \<Rightarrow> (Inl e, w\<lparr>w_fs := fs3\<rparr>)
         | (Inr backupPath, fs3) \<Rightarrow>
         (case calculateChecksum env fs3 backupPath of
            Inl e \<Rightarrow> (Inl (Wrap ''checksum'' e), w\<lparr>w_fs := fs3\<rparr>)
          | Inr checksum \<Rightarrow>
          (case uploadFile F (w\<lparr>w_fs := fs3\<rparr>) backupPath (generateRemotePath policy name) of
             (Some e, w1) \<Rightarrow> (Inl (Wrap ''upload to storage'' e), w1)
           | (None, w1) \<Rightarrow> (Inr (result2\<lparr>res_Checksum := checksum,
                  res_BackupPath := generateRemotePath policy name\<rparr>), w1))))))"
    unfolding pipelineSteps_def Let_def Inr ft
    by (simp only: sum.case prod.case name_def [symmetric] bp0_def [symmetric]
        result1_def [symmetric] c a)
  show ?thesis
  proof (cases e1)
    case (Some e)
    then show ?thesis by (simp add: start)
  next
    case None
    show ?thesis
    proof (cases ra)
      case (Inl e)
      then show ?thesis by (simp add: start None)
    next
      case (Inr br)
      obtain backupPath1 result2 where br: "br = (backupPath1, result2)" by (cases br)
      obtain re fs3 where en: "(if pol_EncryptionEnabled policy
          then performBackup_encrypt env fs2 policy backupPath1 else (Inr backupPath1, fs2)) = (re, fs3)"
        by (cases "if pol_EncryptionEnabled policy
          then performBackup_encrypt env fs2 policy backupPath1 else (Inr backupPath1, fs2)")
      show ?thesis
      proof (cases re)
        case (Inl e)
        then show ?thesis by (simp add: start None Inr br en)
      next
        case bp: (Inr backupPath)
        show ?thesis
        proof (cases "calculateChecksum env fs3 backupPath")
          case (Inl e)
          then show ?thesis by (simp add: start None Inr br en bp)
        next
          case ck: (Inr checksum)
          obtain eu w1 where up: "uploadFile F (w\<lparr>w_fs := fs3\<rparr>) backupPath
              (generateRemotePath policy name) = (eu, w1)"
            by (cases "uploadFile F (w\<lparr>w_fs := fs3\<rparr>) backupPath (generateRemotePath policy name)")
          have "svc_db (w_svc w1) = svc_db (w_svc w)"
            using uploadFile_db [of F "w\<lparr>w_fs := fs3\<rparr>" backupPath "generateRemotePath policy name"]
            by (simp add: up)
          then show ?thesis
            by (cases eu) (simp_all add: start None Inr br en bp ck up)
        qed
      qed
    qed
  qed
qed


lemma performBackup_noInsert:
  "noInsert (svc_db (w_svc w)) (svc_db (w_svc (snd (performBackup F env w policy))))"
proof (cases "env_mkdirTemp env")
  case (Inl e)
  then show ?thesis by (simp add: performBackup_def)
next
  case (Inr tempDir)
  let ?w0 = "w\<lparr>w_fs := AList.update tempDir (DirNode 448) (w_fs w)\<rparr>"
  obtain r w1 where p: "pipelineSteps F env ?w0 policy tempDir = (r, w1)"
    by (cases "pipelineSteps F env ?w0 policy tempDir")
  have db1: "svc_db (w_svc w1) = svc_db (w_svc w)"
    using pipelineSteps_db [of F env ?w0 policy tempDir] p by simp
  show ?thesis
  proof (cases r)
    case (Inl e)
    then show ?thesis by (simp add: performBackup_def Inr p db1)
  next
    case res: (Inr result)
    have "noInsert (svc_db (w_svc w1)) (svc_db (snd (cleanupOldBackups F (w_svc w1) policy)))"
      by (rule cleanupOldBackups_noInsert)
    then show ?thesis
      by (auto simp: performBackup_def Inr p res db1 split: prod.splits option.splits)
  qed
qed

lemma ExecuteBackup_noInsert:
  "noInsert (svc_db (w_svc w))
     (svc_db (w_svc (snd (snd (ExecuteBackup F policy_fails env w job)))))"
proof (cases "getPolicy policy_fails (svc_db (w_svc w)) (job_PolicyID job)")
  case (Inl e)
  then show ?thesis by (simp add: ExecuteBackup_def)
next
  case (Inr policy)
  let ?w1 = "w\<lparr>w_svc := logLine LInfo ''backup started'' (w_svc w)\<rparr>"
  have "noInsert (svc_db (w_svc ?w1)) (svc_db (w_svc (snd (performBackup F env ?w1 policy))))"
    by (rule performBackup_noInsert)
  then show ?thesis
    by (auto simp: ExecuteBackup_def Inr Let_def split: prod.splits sum.splits)
qed

lemma os_Create_file:
  "os_Create fs p = Inr fs' \<Longrightarrow> \<exists>m. map_of fs' p = Some (RegFile m [])"
  by (auto simp: os_Create_def os_OpenFile_def update_conv' split: option.splits fsnode.splits)

lemma file_Write_file:
  "map_of fs p = Some (RegFile m old) \<Longrightarrow>
   map_of (file_Write fs p d) p = Some (RegFile m (d @ drop (length d) old))"
  by (simp add: file_Write_def update_conv')

lemma createArchive_file:
  "createArchive env fs src p = (None, fs') \<Longrightarrow> \<exists>m d. map_of fs' p = Some (RegFile m d)"
  by (auto simp: createArchive_def Let_def dest!: os_Create_file
      dest: file_Write_file split: sum.splits option.splits if_splits)

lemma performBackup_archive_ratio:
  assumes "performBackup_archive env fs backupPath0 result = (Inr (backupPath, result1), fs1)"
  shows "backupPath = backupPath0 @ ''.tar.gz''"
    and "getFileSize fs1 backupPath = Inr (res_CompressedSize result1)"
    and "res_CompressionRatio result1 = (if res_CompressedSize result1 = 0 then 0 else 1)"
proof -
  let ?a = "backupPath0 @ ''.tar.gz''"
  from assms obtain c: "createArchive env fs backupPath0 ?a = (None, fs1)"
    and bp: "backupPath = ?a"
    by (auto simp: performBackup_archive_def Let_def split: prod.splits option.splits)
  from createArchive_file [OF c] obtain m d where f: "map_of fs1 ?a = Some (RegFile m d)" by blast
  have w: "getDirectorySize fs1 ?a = Inr (int (length d))"
    by (simp add: getDirectorySize_def walk_def f isDir_def nodeSize_def)
  have g: "getFileSize fs1 ?a = Inr (int (length d))"
    by (simp add: getFileSize_def f nodeSize_def)
  from assms have r: "result1 = result\<lparr>res_CompressionRatio :=
      real_of_int (int (length d)) / real_of_int (int (length d)),
      res_CompressedSize := int (length d)\<rparr>"
    by (simp add: performBackup_archive_def Let_def c w g)
  show "backupPath = ?a" by (rule bp)
  show "getFileSize fs1 backupPath = Inr (res_CompressedSize result1)"
    by (simp add: bp g r)
  show "res_CompressionRatio result1 = (if res_CompressedSize result1 = 0 then 0 else 1)"
    by (simp add: r)
qed

text \<open>
  C6. When the policy is found, the temporary directory is made and the steps from scan
  to upload succeed, \<open>ExecuteBackup\<close> returns the result and the job is \<open>completed\<close>,
  whatever the retention engine returns; when the retention engine returns an error,
  the error is in the log and nowhere in what \<open>ExecuteBackup\<close> returns.
\<close>

theorem ExecuteBackup_retention_error_not_propagated:
  assumes pol: "getPolicy policy_fails (svc_db (w_svc w)) (job_PolicyID job) = Inr policy"
    and tmp: "env_mkdirTemp env = Inr tempDir"
    and steps: "fst (pipelineSteps F env (startWorld w tempDir) policy tempDir) = Inr result"
  shows "fst (ExecuteBackup F policy_fails env w job) =
           Inr (result\<lparr>res_JobID := job_ID job, res_Duration := env_duration env\<rparr>) \<and>
         job_Status (fst (snd (ExecuteBackup F policy_fails env w job))) = JobStatusCompleted \<and>
         job_Error (fst (snd (ExecuteBackup F policy_fails env w job))) = job_Error job \<and>
         (fst (cleanupOldBackups F
                 (w_svc (snd (pipelineSteps F env (startWorld w tempDir) policy tempDir))) policy) \<noteq> None
          \<longrightarrow> (LError, ''cleanup of old backups failed'') \<in>
                 set (svc_log (w_svc (snd (snd (ExecuteBackup F policy_fails env w job))))))"
proof -
  obtain wP where p: "pipelineSteps F env (startWorld w tempDir) policy tempDir = (Inr result, wP)"
    using steps by (cases "pipelineSteps F env (startWorld w tempDir) policy tempDir") simp
  obtain ce s' where c: "cleanupOldBackups F (w_svc wP) policy = (ce, s')"
    by (cases "cleanupOldBackups F (w_svc wP) policy")
  let ?w1 = "w\<lparr>w_svc := logLine LInfo ''backup started'' (w_svc w)\<rparr>"
  let ?svc2 = "case ce of Some e \<Rightarrow> logLine LError ''cleanup of old backups failed'' s' | None \<Rightarrow> s'"
  note p' = p [unfolded startWorld_def]
  have pb: "performBackup F env ?w1 policy =
      (Inr result, wP\<lparr>w_svc := ?svc2, w_fs := os_RemoveAll (w_fs wP) tempDir\<rparr>)"
    by (simp add: performBackup_def Let_def tmp p' c split: option.splits)
  have ex: "ExecuteBackup F policy_fails env w job =
      (Inr (result\<lparr>res_JobID := job_ID job, res_Duration := env_duration env\<rparr>),
       job\<lparr>job_Status := JobStatusCompleted, job_StartedAt := env_startedAt env,
           job_CompletedAt := Some (env_completedAt env)\<rparr>,
       wP\<lparr>w_svc := logLine LInfo ''backup completed'' ?svc2,
          w_fs := os_RemoveAll (w_fs wP) tempDir\<rparr>)"
    unfolding ExecuteBackup_def Let_def pol by (simp add: pb)
  have "(LError, ''cleanup of old backups failed'') \<in>
      set (svc_log (w_svc (snd (snd (ExecuteBackup F policy_fails env w job)))))"
    if "ce \<noteq> None"
    using that by (auto simp: ex logLine_def)
  then show ?thesis by (simp add: ex p c)
qed

theorem ExecuteBackup_retention_error_not_propagated_witness:
  "getPolicy False (svc_db (w_svc ex_world)) (job_PolicyID ex_new_job) = Inr ex_run_policy \<and>
   env_mkdirTemp ex_env = Inr ''/tmp/backup-1'' \<and>
   fst (pipelineSteps (no_faults\<lparr>history_query_fails := True\<rparr>) ex_env
          (startWorld ex_world ''/tmp/backup-1'') ex_run_policy ''/tmp/backup-1'') = Inr ex_run_result \<and>
   fst (cleanupOldBackups (no_faults\<lparr>history_query_fails := True\<rparr>)
          (w_svc (snd (pipelineSteps (no_faults\<lparr>history_query_fails := True\<rparr>) ex_env
             (startWorld ex_world ''/tmp/backup-1'') ex_run_policy ''/tmp/backup-1''))) ex_run_policy)
     = Some (Wrap ''list backups'' (Wrap ''backup history'' (Wrap ''backup history query'' DbError))) \<and>
   fst (ExecuteBackup (no_faults\<lparr>history_query_fails := True\<rparr>) False ex_env ex_world ex_new_job) =
     Inr (ex_run_result\<lparr>res_JobID := ''j9'', res_Duration := 5\<rparr>) \<and>
   job_Status (fst (snd (ExecuteBackup (no_faults\<lparr>history_query_fails := True\<rparr>) False ex_env
     ex_world ex_new_job))) = JobStatusCompleted \<and>
   (LError, ''cleanup of old backups failed'') \<in>
     set (svc_log (w_svc (snd (snd (ExecuteBackup (no_faults\<lparr>history_query_fails := True\<rparr>) False
       ex_env ex_world ex_new_job)))))"
proof -
  let ?F = "no_faults\<lparr>history_query_fails := True\<rparr>"
  have pol: "getPolicy False (svc_db (w_svc ex_world)) (job_PolicyID ex_new_job) = Inr ex_run_policy"
    by code_simp
  have tmp: "env_mkdirTemp ex_env = Inr ''/tmp/backup-1''" by code_simp
  have steps: "fst (pipelineSteps ?F ex_env (startWorld ex_world ''/tmp/backup-1'') ex_run_policy
      ''/tmp/backup-1'') = Inr ex_run_result"
    by code_simp
  have cl: "fst (cleanupOldBackups ?F
          (w_svc (snd (pipelineSteps ?F ex_env
             (startWorld ex_world ''/tmp/backup-1'') ex_run_policy ''/tmp/backup-1''))) ex_run_policy)
     = Some (Wrap ''list backups'' (Wrap ''backup history'' (Wrap ''backup history query'' DbError)))"
    by code_simp
  have j: "job_ID ex_new_job = ''j9''" "env_duration ex_env = 5" by code_simp+
  note t = ExecuteBackup_retention_error_not_propagated [OF pol tmp steps]
  from t cl pol tmp steps show ?thesis by (simp add: j)
qed

text \<open>
  C2. \<open>ExecuteBackup\<close> persists nothing. In a run that succeeds, for a job \<open>j9\<close> of a
  policy without jobs, the result is returned and the job is \<open>completed\<close>, and
  afterwards \<open>backup_jobs\<close> and \<open>backup_results\<close> are still empty;
  \<open>saveBackupJob\<close> and \<open>saveBackupResult\<close>, which would write the rows, are never
  called.
\<close>

theorem ExecuteBackup_persists_nothing:
  "fst (ExecuteBackup no_faults False ex_env ex_world ex_new_job) =
     Inr (ex_run_result\<lparr>res_JobID := ''j9'', res_Duration := 5\<rparr>) \<and>
   job_Status (fst (snd (ExecuteBackup no_faults False ex_env ex_world ex_new_job))) =
     JobStatusCompleted \<and>
   backup_jobs (svc_db (w_svc (snd (snd (ExecuteBackup no_faults False ex_env ex_world ex_new_job)))))
     = [] \<and>
   backup_results (svc_db (w_svc (snd (snd (ExecuteBackup no_faults False ex_env ex_world ex_new_job)))))
     = [] \<and>
   map jr_id (backup_jobs (snd (saveBackupJob False 105 ex_run_catalog
     (fst (snd (ExecuteBackup no_faults False ex_env ex_world ex_new_job)))))) = [''j9'']"
  by code_simp

text \<open>
  C7. The compression ratio is computed from the archive file on both sides. In a run
  whose working copy holds 64 bytes and whose archive has 32 bytes, the ratio of the
  result is 1, not 64 / 32.
\<close>

theorem performBackup_compression_ratio_is_one:
  "getDirectorySize
     (w_fs (snd (pipelineSteps no_faults ex_env (startWorld ex_world ''/tmp/backup-1'')
        ex_run_policy ''/tmp/backup-1''))) ''/tmp/backup-1/docs-20240101-000000'' = Inr 64 \<and>
   getFileSize
     (w_fs (snd (pipelineSteps no_faults ex_env (startWorld ex_world ''/tmp/backup-1'')
        ex_run_policy ''/tmp/backup-1''))) ''/tmp/backup-1/docs-20240101-000000.tar.gz'' = Inr 32 \<and>
   res_CompressionRatio (projr (fst (ExecuteBackup no_faults False ex_env ex_world ex_new_job))) = 1 \<and>
   res_CompressedSize (projr (fst (ExecuteBackup no_faults False ex_env ex_world ex_new_job))) = 32 \<and>
   res_CompressionRatio (projr (fst (ExecuteBackup no_faults False ex_env ex_world ex_new_job)))
     \<noteq> real_of_int 64 / real_of_int 32"
  by code_simp

end
